theory Spec2Isabelle
  imports
    Main
    "HOL-Library.Word"
    "HOL-Library.Multiset"
    "HOL-Library.List_Lexorder"
    "HOL-Library.Product_Lexorder"
begin

unbundle bit_operations_syntax

section \<open>Data model of \<open>channeld/commit_tx.c\<close>\<close>

text \<open>
  Amounts are \<open>u64\<close> counters of satoshis (\<open>struct amount_sat\<close>) or millisatoshis
  (\<open>struct amount_msat\<close>).  They are modelled as natural numbers, and every place where the
  64-bit width is visible to the code (the overflow-checked addition) writes the bound out.
  Pointers to \<open>struct htlc\<close> are addresses; the memory the call reads is a function from
  addresses to HTLC records.
\<close>

type_synonym u8 = "8 word"
type_synonym u32 = "32 word"
type_synonym u64 = "64 word"
type_synonym bytes = "u8 list"
type_synonym amount_sat = nat
type_synonym amount_msat = nat
type_synonym addr = nat

datatype side = LOCAL | REMOTE

record htlc =
  htlc_id :: nat
  amount :: amount_msat
  rhash :: bytes
  expiry :: nat
  owner :: side

record keyset =
  self_revocation_key :: bytes
  self_htlc_key :: bytes
  other_htlc_key :: bytes
  self_delayed_payment_key :: bytes
  self_payment_key :: bytes
  other_payment_key :: bytes

record wally_tx_output =
  satoshi :: amount_sat
  script :: bytes

record wally_tx_input =
  txhash :: bytes
  txout_index :: nat
  sequence :: u32

record wally_tx =
  version :: nat
  locktime :: u32
  inputs :: "wally_tx_input list"
  outputs :: "wally_tx_output list"
  outputs_allocation_len :: nat

record bitcoin_tx =
  input_amounts :: "amount_sat list"
  wtx :: wally_tx
  output_witscripts :: "bytes option list"

text \<open>
  The collaborators the file calls but does not define: the trimming predicate
  (\<open>common/htlc_trim.h\<close>), the fee formula (\<open>commit_tx_base_fee\<close>) and the script
  generators (\<open>bitcoin/script.h\<close>).  Their bodies are not part of the translated file, so
  they are parameters of the model, and every theorem below holds for any choice of them.
\<close>

record collaborators =
  htlc_is_trimmed :: "side \<Rightarrow> amount_msat \<Rightarrow> nat \<Rightarrow> amount_sat \<Rightarrow> side \<Rightarrow> bool"
  commit_tx_base_fee :: "nat \<Rightarrow> nat \<Rightarrow> amount_sat"
  ripemd160 :: "bytes \<Rightarrow> bytes"
  htlc_offered_wscript :: "bytes \<Rightarrow> keyset \<Rightarrow> bytes"
  htlc_received_wscript :: "bytes \<Rightarrow> nat \<Rightarrow> keyset \<Rightarrow> bytes"
  to_self_wscript :: "nat \<Rightarrow> keyset \<Rightarrow> bytes"
  scriptpubkey_p2wsh :: "bytes \<Rightarrow> bytes"
  scriptpubkey_p2wpkh :: "bytes \<Rightarrow> bytes"

text \<open>
  \<open>tal_arr\<close> returns uninitialised memory.  What the fresh arrays hold before the code
  writes to them is an input of the model: one function per array, from index to content.
\<close>

record uninit =
  htlcmap_junk :: "nat \<Rightarrow> addr"
  cltvs_junk :: "nat \<Rightarrow> nat"

definition tal_arr :: "(nat \<Rightarrow> 'a) \<Rightarrow> nat \<Rightarrow> 'a list" where
  "tal_arr junk len = map junk [0..<len]"

datatype error =
    Abort_amount_overflow
  | Assert_total_pay_exceeds_funding
  | Assert_pos_is_n
  | Assert_n_positive
  | Assert_n_within_allocation
  | Assert_version_2
  | Assert_bitcoin_tx_check

section \<open>Amount arithmetic\<close>

text \<open>
  Modelled from the spec: \<open>common/amount.c\<close> is not among the translated sources.  The spec
  gives its contract: addition is overflow-checked, the conversion from millisatoshi to
  satoshi truncates, and a millisatoshi amount is compared with a satoshi amount by value.
\<close>

definition amount_msat_add :: "amount_msat \<Rightarrow> amount_msat \<Rightarrow> amount_msat option" where
  "amount_msat_add a b = (if a + b < 2 ^ 64 then Some (a + b) else None)"

definition amount_msat_to_sat_round_down :: "amount_msat \<Rightarrow> amount_sat" where
  "amount_msat_to_sat_round_down msat = msat div 1000"

definition amount_msat_greater_sat :: "amount_msat \<Rightarrow> amount_sat \<Rightarrow> bool" where
  "amount_msat_greater_sat msat sat = (msat > sat * 1000)"

definition amount_msat_greater_eq_sat :: "amount_msat \<Rightarrow> amount_sat \<Rightarrow> bool" where
  "amount_msat_greater_eq_sat msat sat = (msat \<ge> sat * 1000)"

section \<open>Fee allocation\<close>

text \<open>
  Modelled from the spec: \<open>try_subtract_fee\<close> lives in \<open>common/initial_commit_tx.c\<close>, which
  is not among the translated sources.  Spec 4.3: the fee is subtracted from whichever of
  \<open>self_pay\<close>/\<open>other_pay\<close> belongs to the opener as seen from the rendering side, floored at
  zero; nothing is taken from the other party and no error is raised.  The pair returned is
  \<open>(self_pay, other_pay)\<close> after the call.
\<close>

definition amount_msat_sub_sat_floor :: "amount_msat \<Rightarrow> amount_sat \<Rightarrow> amount_msat" where
  "amount_msat_sub_sat_floor msat sat =
     (if msat \<ge> sat * 1000 then msat - sat * 1000 else 0)"

definition try_subtract_fee ::
  "side \<Rightarrow> side \<Rightarrow> amount_sat \<Rightarrow> amount_msat \<Rightarrow> amount_msat \<Rightarrow> amount_msat \<times> amount_msat" where
  "try_subtract_fee opener side base_fee self other =
     (if opener = side then (amount_msat_sub_sat_floor self base_fee, other)
      else (self, amount_msat_sub_sat_floor other base_fee))"

section \<open>Trimming\<close>

definition htlc_owner :: "htlc \<Rightarrow> side" where
  "htlc_owner h = owner h"

definition trim :: "collaborators \<Rightarrow> htlc \<Rightarrow> nat \<Rightarrow> amount_sat \<Rightarrow> side \<Rightarrow> bool" where
  "trim C h feerate_per_kw dust_limit side =
     htlc_is_trimmed C (htlc_owner h) (amount h) feerate_per_kw dust_limit side"

fun commit_tx_num_untrimmed ::
  "collaborators \<Rightarrow> (addr \<Rightarrow> htlc) \<Rightarrow> addr list \<Rightarrow> nat \<Rightarrow> amount_sat \<Rightarrow> side \<Rightarrow> nat" where
  "commit_tx_num_untrimmed C mem [] feerate_per_kw dust_limit side = 0"
| "commit_tx_num_untrimmed C mem (p # ps) feerate_per_kw dust_limit side =
     (if trim C (mem p) feerate_per_kw dust_limit side then 0 else 1)
     + commit_tx_num_untrimmed C mem ps feerate_per_kw dust_limit side"

section \<open>Transaction container\<close>

text \<open>
  Modelled from the spec: \<open>bitcoin/tx.c\<close> is not among the translated sources.  Spec 3
  and 4.6: a commitment transaction has version 2, a locktime, inputs and outputs, and is
  built incrementally; outputs are appended and the position of the new output is returned;
  the arrays are sized to the worst case and trimmed to the actual count on finalisation;
  the structural check asks for a non-empty output list and valid (64-bit) amounts.
\<close>

definition bitcoin_tx :: "nat \<Rightarrow> nat \<Rightarrow> u32 \<Rightarrow> bitcoin_tx" where
  "bitcoin_tx input_count output_count nlocktime =
     \<lparr>input_amounts = [],
      wtx = \<lparr>version = 2, locktime = nlocktime, inputs = [], outputs = [],
             outputs_allocation_len = output_count\<rparr>,
      output_witscripts = replicate output_count None\<rparr>"

definition bitcoin_tx_add_output :: "bitcoin_tx \<Rightarrow> bytes \<Rightarrow> amount_sat \<Rightarrow> nat \<times> bitcoin_tx" where
  "bitcoin_tx_add_output tx scr amt =
     (length (outputs (wtx tx)),
      tx\<lparr>wtx := (wtx tx)\<lparr>outputs := outputs (wtx tx) @ [\<lparr>satoshi = amt, script = scr\<rparr>]\<rparr>\<rparr>)"

definition bitcoin_tx_add_input ::
  "bitcoin_tx \<Rightarrow> bytes \<Rightarrow> nat \<Rightarrow> u32 \<Rightarrow> amount_sat \<Rightarrow> bitcoin_tx" where
  "bitcoin_tx_add_input tx txid outnum sequ amt =
     tx\<lparr>wtx := (wtx tx)\<lparr>inputs := inputs (wtx tx)
                @ [\<lparr>txhash = txid, txout_index = outnum, sequence = sequ\<rparr>]\<rparr>,
        input_amounts := input_amounts tx @ [amt]\<rparr>"

definition bitcoin_tx_finalize :: "bitcoin_tx \<Rightarrow> bitcoin_tx" where
  "bitcoin_tx_finalize tx =
     tx\<lparr>output_witscripts := take (length (outputs (wtx tx))) (output_witscripts tx)\<rparr>"

definition bitcoin_tx_check :: "bitcoin_tx \<Rightarrow> bool" where
  "bitcoin_tx_check tx =
     (outputs (wtx tx) \<noteq> [] \<and> list_all (\<lambda>out. satoshi out < 2 ^ 64) (outputs (wtx tx)))"

text \<open>
  Modelled from the spec: \<open>abs_locktime_to_blocks\<close> (\<open>bitcoin/locktime.h\<close>) reads the
  block height out of an absolute expiry; the HTLC record already stores the expiry as a
  block height (spec 3).
\<close>

definition abs_locktime_to_blocks :: "nat \<Rightarrow> nat" where
  "abs_locktime_to_blocks e = e"

section \<open>Canonical permuter\<close>

text \<open>
  Modelled from the spec: \<open>permute_outputs\<close> lives in \<open>common/permute_tx.c\<close>, which is not
  among the translated sources.  Spec 4.5: the outputs are put in ascending order of
  (amount, script bytes), ties broken by ascending expiry as found in the \<open>cltvs\<close> array,
  the order of what is still tied is kept (stable), and the one permutation is applied to
  the outputs, to their recorded witness scripts and to the map.  The permutation is
  computed as a list of source indices.
\<close>

definition output_order_key ::
  "wally_tx_output list \<Rightarrow> nat list \<Rightarrow> nat \<Rightarrow> amount_sat \<times> bytes \<times> nat" where
  "output_order_key outs cltvs i = (satoshi (outs ! i), script (outs ! i), cltvs ! i)"

definition output_permutation :: "wally_tx_output list \<Rightarrow> nat list \<Rightarrow> nat list" where
  "output_permutation outs cltvs = sort_key (output_order_key outs cltvs) [0..<length outs]"

definition permute_outputs ::
  "bitcoin_tx \<Rightarrow> nat list \<Rightarrow> addr list \<Rightarrow> bitcoin_tx \<times> addr list" where
  "permute_outputs tx cltvs hmap =
     (let outs = outputs (wtx tx);
          perm = output_permutation outs cltvs
      in (tx\<lparr>wtx := (wtx tx)\<lparr>outputs := map (\<lambda>i. outs ! i) perm\<rparr>,
             output_witscripts := map (\<lambda>i. output_witscripts tx ! i) perm
                                  @ drop (length outs) (output_witscripts tx)\<rparr>,
          map (\<lambda>i. hmap ! i) perm))"

section \<open>Building the outputs\<close>

definition NULL :: addr where
  "NULL = 0"

definition dummy_to_local :: addr where
  "dummy_to_local = 1"

definition dummy_to_remote :: addr where
  "dummy_to_remote = 2"

text \<open>The locals of \<open>commit_tx\<close> that the output-emission steps update.\<close>

record build_state =
  st_tx :: bitcoin_tx
  st_htlcmap :: "addr list"
  st_cltvs :: "nat list"
  st_n :: nat

definition add_offered_htlc_out ::
  "collaborators \<Rightarrow> bitcoin_tx \<Rightarrow> nat \<Rightarrow> htlc \<Rightarrow> keyset \<Rightarrow> bitcoin_tx" where
  "add_offered_htlc_out C tx n h ks =
     (let amt = amount_msat_to_sat_round_down (amount h);
          ripemd = ripemd160 C (rhash h);
          wscript = htlc_offered_wscript C ripemd ks;
          p2wsh = scriptpubkey_p2wsh C wscript;
          tx' = snd (bitcoin_tx_add_output tx p2wsh amt)
      in tx'\<lparr>output_witscripts := (output_witscripts tx')[n := Some wscript]\<rparr>)"

definition add_received_htlc_out ::
  "collaborators \<Rightarrow> bitcoin_tx \<Rightarrow> nat \<Rightarrow> htlc \<Rightarrow> keyset \<Rightarrow> bitcoin_tx" where
  "add_received_htlc_out C tx n h ks =
     (let ripemd = ripemd160 C (rhash h);
          wscript = htlc_received_wscript C ripemd (expiry h) ks;
          p2wsh = scriptpubkey_p2wsh C wscript;
          amt = amount_msat_to_sat_round_down (amount h);
          tx' = snd (bitcoin_tx_add_output tx p2wsh amt)
      in tx'\<lparr>output_witscripts := (output_witscripts tx')[n := Some wscript]\<rparr>)"

text \<open>Lines 218 to 230: the loop over the HTLCs offered by the rendering side.\<close>

fun add_offered_htlcs ::
  "collaborators \<Rightarrow> (addr \<Rightarrow> htlc) \<Rightarrow> keyset \<Rightarrow> nat \<Rightarrow> amount_sat \<Rightarrow> side
     \<Rightarrow> addr list \<Rightarrow> build_state \<Rightarrow> build_state" where
  "add_offered_htlcs C mem ks feerate_per_kw dust_limit side [] s = s"
| "add_offered_htlcs C mem ks feerate_per_kw dust_limit side (p # ps) s =
     (if htlc_owner (mem p) \<noteq> side then
        add_offered_htlcs C mem ks feerate_per_kw dust_limit side ps s
      else if trim C (mem p) feerate_per_kw dust_limit side then
        add_offered_htlcs C mem ks feerate_per_kw dust_limit side ps s
      else
        add_offered_htlcs C mem ks feerate_per_kw dust_limit side ps
          \<lparr>st_tx = add_offered_htlc_out C (st_tx s) (st_n s) (mem p) ks,
           st_htlcmap = (st_htlcmap s)[st_n s := p],
           st_cltvs = (st_cltvs s)[st_n s := abs_locktime_to_blocks (expiry (mem p))],
           st_n = st_n s + 1\<rparr>)"

text \<open>Lines 237 to 249: the loop over the HTLCs received by the rendering side.\<close>

fun add_received_htlcs ::
  "collaborators \<Rightarrow> (addr \<Rightarrow> htlc) \<Rightarrow> keyset \<Rightarrow> nat \<Rightarrow> amount_sat \<Rightarrow> side
     \<Rightarrow> addr list \<Rightarrow> build_state \<Rightarrow> build_state" where
  "add_received_htlcs C mem ks feerate_per_kw dust_limit side [] s = s"
| "add_received_htlcs C mem ks feerate_per_kw dust_limit side (p # ps) s =
     (if htlc_owner (mem p) = side then
        add_received_htlcs C mem ks feerate_per_kw dust_limit side ps s
      else if trim C (mem p) feerate_per_kw dust_limit side then
        add_received_htlcs C mem ks feerate_per_kw dust_limit side ps s
      else
        add_received_htlcs C mem ks feerate_per_kw dust_limit side ps
          \<lparr>st_tx = add_received_htlc_out C (st_tx s) (st_n s) (mem p) ks,
           st_htlcmap = (st_htlcmap s)[st_n s := p],
           st_cltvs = (st_cltvs s)[st_n s := abs_locktime_to_blocks (expiry (mem p))],
           st_n = st_n s + 1\<rparr>)"

text \<open>Lines 257 to 276: the \<open>to_local\<close> output.  Its \<open>cltvs\<close> slot is not written.\<close>

definition add_to_local ::
  "collaborators \<Rightarrow> nat \<Rightarrow> keyset \<Rightarrow> amount_sat \<Rightarrow> amount_msat \<Rightarrow> bool
     \<Rightarrow> build_state \<Rightarrow> build_state" where
  "add_to_local C to_self_delay ks dust_limit self_pay direct_outputs s =
     (if amount_msat_greater_eq_sat self_pay dust_limit then
        let wscript = to_self_wscript C to_self_delay ks;
            p2wsh = scriptpubkey_p2wsh C wscript;
            amt = amount_msat_to_sat_round_down self_pay;
            tx' = snd (bitcoin_tx_add_output (st_tx s) p2wsh amt)
        in s\<lparr>st_tx := tx'\<lparr>output_witscripts :=
                          (output_witscripts tx')[st_n s := Some wscript]\<rparr>,
             st_htlcmap := (st_htlcmap s)
                          [st_n s := (if direct_outputs then dummy_to_local else NULL)],
             st_n := st_n s + 1\<rparr>
      else s)"

text \<open>
  Lines 284 to 306: the \<open>to_remote\<close> output, with the assertion that the container put it
  at position \<open>n\<close>.  No witness script is recorded for it and its \<open>cltvs\<close> slot is not
  written.
\<close>

definition add_to_remote ::
  "collaborators \<Rightarrow> keyset \<Rightarrow> amount_sat \<Rightarrow> amount_msat \<Rightarrow> bool
     \<Rightarrow> build_state \<Rightarrow> error + build_state" where
  "add_to_remote C ks dust_limit other_pay direct_outputs s =
     (if amount_msat_greater_eq_sat other_pay dust_limit then
        let amt = amount_msat_to_sat_round_down other_pay;
            p2wpkh = scriptpubkey_p2wpkh C (other_payment_key ks);
            (pos, tx') = bitcoin_tx_add_output (st_tx s) p2wpkh amt
        in if pos \<noteq> st_n s then Inl Assert_pos_is_n
           else Inr (s\<lparr>st_tx := tx',
                       st_htlcmap := (st_htlcmap s)
                          [st_n s := (if direct_outputs then dummy_to_remote else NULL)],
                       st_n := st_n s + 1\<rparr>)
      else Inr s)"

text \<open>
  The caller's array \<open>direct_outputs[NUM_SIDES]\<close> of pointers into the outputs: a pointer
  \<open>tx->wtx->outputs + i\<close> is the index \<open>i\<close>, \<open>None\<close> is the NULL pointer, and the array is
  the pair of its \<open>LOCAL\<close> and \<open>REMOTE\<close> slots.
\<close>

type_synonym direct_outputs = "nat option \<times> nat option"

fun direct_get :: "direct_outputs \<Rightarrow> side \<Rightarrow> nat option" where
  "direct_get d LOCAL = fst d"
| "direct_get d REMOTE = snd d"

fun direct_set :: "direct_outputs \<Rightarrow> side \<Rightarrow> nat option \<Rightarrow> direct_outputs" where
  "direct_set d LOCAL v = (v, snd d)"
| "direct_set d REMOTE v = (fst d, v)"

text \<open>Lines 355 to 366: the scan that finds the direct outputs and clears their markers.\<close>

fun identify_direct_outputs ::
  "nat list \<Rightarrow> addr list \<Rightarrow> direct_outputs \<Rightarrow> addr list \<times> direct_outputs" where
  "identify_direct_outputs [] hmap d = (hmap, d)"
| "identify_direct_outputs (i # is) hmap d =
     (if hmap ! i = dummy_to_local then
        identify_direct_outputs is (hmap[i := NULL]) (direct_set d LOCAL (Some i))
      else if hmap ! i = dummy_to_remote then
        identify_direct_outputs is (hmap[i := NULL]) (direct_set d REMOTE (Some i))
      else identify_direct_outputs is hmap d)"

section \<open>The commitment transaction\<close>

text \<open>
  Lines 199 to 306 of \<open>commit_tx\<close>: the transaction and the two side arrays are allocated
  for \<open>untrimmed + 2\<close> outputs, then the four emission steps run in the order of BOLT 3.
\<close>

definition build_outputs ::
  "collaborators \<Rightarrow> uninit \<Rightarrow> (addr \<Rightarrow> htlc) \<Rightarrow> nat \<Rightarrow> keyset \<Rightarrow> nat \<Rightarrow> amount_sat
     \<Rightarrow> amount_msat \<Rightarrow> amount_msat \<Rightarrow> addr list \<Rightarrow> bool \<Rightarrow> side \<Rightarrow> nat
     \<Rightarrow> error + build_state" where
  "build_outputs C U mem to_self_delay ks feerate_per_kw dust_limit self_pay other_pay htlcs
      direct_outputs side untrimmed =
     (let tx0 = bitcoin_tx 1 (untrimmed + 2) 0;
          s0 = \<lparr>st_tx = tx0,
                st_htlcmap = tal_arr (htlcmap_junk U) (outputs_allocation_len (wtx tx0)),
                st_cltvs = tal_arr (cltvs_junk U) (outputs_allocation_len (wtx tx0)),
                st_n = 0\<rparr>;
          s1 = add_offered_htlcs C mem ks feerate_per_kw dust_limit side htlcs s0;
          s2 = add_received_htlcs C mem ks feerate_per_kw dust_limit side htlcs s1;
          s3 = add_to_local C to_self_delay ks dust_limit self_pay direct_outputs s2
      in add_to_remote C ks dust_limit other_pay direct_outputs s3)"

text \<open>
  What the caller gets back: the transaction, the HTLC map written through \<open>htlcmap\<close>, and
  the two direct-output slots when \<open>direct_outputs\<close> was not NULL.
\<close>

record commit_result =
  res_tx :: bitcoin_tx
  res_htlcmap :: "addr list"
  res_direct_outputs :: "direct_outputs option"

definition commit_tx ::
  "collaborators \<Rightarrow> uninit \<Rightarrow> (addr \<Rightarrow> htlc) \<Rightarrow> bytes \<Rightarrow> nat \<Rightarrow> amount_sat \<Rightarrow> side \<Rightarrow> nat
     \<Rightarrow> keyset \<Rightarrow> nat \<Rightarrow> amount_sat \<Rightarrow> amount_msat \<Rightarrow> amount_msat \<Rightarrow> addr list \<Rightarrow> bool
     \<Rightarrow> u64 \<Rightarrow> side \<Rightarrow> error + commit_result" where
  "commit_tx C U mem funding_txid funding_txout funding opener to_self_delay ks
      feerate_per_kw dust_limit self_pay other_pay htlcs direct_outputs
      obscured_commitment_number side =
     (case amount_msat_add self_pay other_pay of
        None \<Rightarrow> Inl Abort_amount_overflow
      | Some total_pay \<Rightarrow>
        if amount_msat_greater_sat total_pay funding then Inl Assert_total_pay_exceeds_funding
        else
          let untrimmed = commit_tx_num_untrimmed C mem htlcs feerate_per_kw dust_limit side;
              base_fee = commit_tx_base_fee C feerate_per_kw untrimmed;
              (self_pay', other_pay') =
                 try_subtract_fee opener side base_fee self_pay other_pay
          in (case build_outputs C U mem to_self_delay ks feerate_per_kw dust_limit
                     self_pay' other_pay' htlcs direct_outputs side untrimmed of
               Inl e \<Rightarrow> Inl e
             | Inr s4 \<Rightarrow>
               if \<not> (st_n s4 > 0) then Inl Assert_n_positive
               else if \<not> (st_n s4 \<le> outputs_allocation_len (wtx (st_tx s4)))
                 then Inl Assert_n_within_allocation
               else
                 let (tx5, hmap5) =
                        permute_outputs (st_tx s4) (st_cltvs s4) (take (st_n s4) (st_htlcmap s4))
                 in if version (wtx tx5) \<noteq> 2 then Inl Assert_version_2
                    else
                      let tx6 = tx5\<lparr>wtx := (wtx tx5)\<lparr>locktime :=
                                   ucast (0x20000000 OR (obscured_commitment_number AND 0xFFFFFF))\<rparr>\<rparr>;
                          sequ = (ucast (0x80000000
                                   OR (drop_bit 24 obscured_commitment_number AND 0xFFFFFF)) :: u32);
                          tx7 = bitcoin_tx_add_input tx6 funding_txid funding_txout sequ funding;
                          (hmap8, direct) =
                             (if direct_outputs then
                                map_prod id Some
                                  (identify_direct_outputs [0..<length (outputs (wtx tx7))]
                                     hmap5 (None, None))
                              else (hmap5, None));
                          tx8 = bitcoin_tx_finalize tx7
                      in if \<not> bitcoin_tx_check tx8 then Inl Assert_bitcoin_tx_check
                         else Inr \<lparr>res_tx = tx8, res_htlcmap = hmap8,
                                   res_direct_outputs = direct\<rparr>))"

section \<open>What the emission steps produce\<close>

text \<open>
  The HTLCs that survive each loop, the output each of the four steps appends, and what
  the three parallel arrays hold in their first \<open>n\<close> slots when the steps are done.  These
  are the terms the theorems are stated in; the lemmas below prove that the loops compute
  them.
\<close>

definition untrimmed_offered ::
  "collaborators \<Rightarrow> (addr \<Rightarrow> htlc) \<Rightarrow> nat \<Rightarrow> amount_sat \<Rightarrow> side \<Rightarrow> addr list \<Rightarrow> addr list" where
  "untrimmed_offered C mem feerate_per_kw dust_limit sd ps =
     filter (\<lambda>p. htlc_owner (mem p) = sd \<and> \<not> trim C (mem p) feerate_per_kw dust_limit sd) ps"

definition untrimmed_received ::
  "collaborators \<Rightarrow> (addr \<Rightarrow> htlc) \<Rightarrow> nat \<Rightarrow> amount_sat \<Rightarrow> side \<Rightarrow> addr list \<Rightarrow> addr list" where
  "untrimmed_received C mem feerate_per_kw dust_limit sd ps =
     filter (\<lambda>p. htlc_owner (mem p) \<noteq> sd \<and> \<not> trim C (mem p) feerate_per_kw dust_limit sd) ps"

definition offered_wscript :: "collaborators \<Rightarrow> keyset \<Rightarrow> htlc \<Rightarrow> bytes" where
  "offered_wscript C ks h = htlc_offered_wscript C (ripemd160 C (rhash h)) ks"

definition received_wscript :: "collaborators \<Rightarrow> keyset \<Rightarrow> htlc \<Rightarrow> bytes" where
  "received_wscript C ks h = htlc_received_wscript C (ripemd160 C (rhash h)) (expiry h) ks"

definition offered_htlc_output :: "collaborators \<Rightarrow> keyset \<Rightarrow> htlc \<Rightarrow> wally_tx_output" where
  "offered_htlc_output C ks h =
     \<lparr>satoshi = amount_msat_to_sat_round_down (amount h),
      script = scriptpubkey_p2wsh C (offered_wscript C ks h)\<rparr>"

definition received_htlc_output :: "collaborators \<Rightarrow> keyset \<Rightarrow> htlc \<Rightarrow> wally_tx_output" where
  "received_htlc_output C ks h =
     \<lparr>satoshi = amount_msat_to_sat_round_down (amount h),
      script = scriptpubkey_p2wsh C (received_wscript C ks h)\<rparr>"

definition htlc_output :: "collaborators \<Rightarrow> keyset \<Rightarrow> side \<Rightarrow> htlc \<Rightarrow> wally_tx_output" where
  "htlc_output C ks sd h =
     (if htlc_owner h = sd then offered_htlc_output C ks h else received_htlc_output C ks h)"

definition to_local_output ::
  "collaborators \<Rightarrow> nat \<Rightarrow> keyset \<Rightarrow> amount_msat \<Rightarrow> wally_tx_output" where
  "to_local_output C to_self_delay ks self_pay =
     \<lparr>satoshi = amount_msat_to_sat_round_down self_pay,
      script = scriptpubkey_p2wsh C (to_self_wscript C to_self_delay ks)\<rparr>"

definition to_remote_output :: "collaborators \<Rightarrow> keyset \<Rightarrow> amount_msat \<Rightarrow> wally_tx_output" where
  "to_remote_output C ks other_pay =
     \<lparr>satoshi = amount_msat_to_sat_round_down other_pay,
      script = scriptpubkey_p2wpkh C (other_payment_key ks)\<rparr>"

definition built_outputs ::
  "collaborators \<Rightarrow> (addr \<Rightarrow> htlc) \<Rightarrow> nat \<Rightarrow> keyset \<Rightarrow> nat \<Rightarrow> amount_sat
     \<Rightarrow> amount_msat \<Rightarrow> amount_msat \<Rightarrow> addr list \<Rightarrow> side \<Rightarrow> wally_tx_output list" where
  "built_outputs C mem to_self_delay ks feerate_per_kw dust_limit self_pay other_pay htlcs sd =
     map (\<lambda>p. offered_htlc_output C ks (mem p))
         (untrimmed_offered C mem feerate_per_kw dust_limit sd htlcs)
     @ map (\<lambda>p. received_htlc_output C ks (mem p))
         (untrimmed_received C mem feerate_per_kw dust_limit sd htlcs)
     @ (if amount_msat_greater_eq_sat self_pay dust_limit
        then [to_local_output C to_self_delay ks self_pay] else [])
     @ (if amount_msat_greater_eq_sat other_pay dust_limit
        then [to_remote_output C ks other_pay] else [])"

definition built_htlcmap ::
  "collaborators \<Rightarrow> (addr \<Rightarrow> htlc) \<Rightarrow> nat \<Rightarrow> amount_sat
     \<Rightarrow> amount_msat \<Rightarrow> amount_msat \<Rightarrow> addr list \<Rightarrow> bool \<Rightarrow> side \<Rightarrow> addr list" where
  "built_htlcmap C mem feerate_per_kw dust_limit self_pay other_pay htlcs direct_outputs sd =
     untrimmed_offered C mem feerate_per_kw dust_limit sd htlcs
     @ untrimmed_received C mem feerate_per_kw dust_limit sd htlcs
     @ (if amount_msat_greater_eq_sat self_pay dust_limit
        then [if direct_outputs then dummy_to_local else NULL] else [])
     @ (if amount_msat_greater_eq_sat other_pay dust_limit
        then [if direct_outputs then dummy_to_remote else NULL] else [])"

definition built_witscripts ::
  "collaborators \<Rightarrow> (addr \<Rightarrow> htlc) \<Rightarrow> nat \<Rightarrow> keyset \<Rightarrow> nat \<Rightarrow> amount_sat
     \<Rightarrow> amount_msat \<Rightarrow> amount_msat \<Rightarrow> addr list \<Rightarrow> side \<Rightarrow> bytes option list" where
  "built_witscripts C mem to_self_delay ks feerate_per_kw dust_limit self_pay other_pay htlcs sd =
     map (\<lambda>p. Some (offered_wscript C ks (mem p)))
         (untrimmed_offered C mem feerate_per_kw dust_limit sd htlcs)
     @ map (\<lambda>p. Some (received_wscript C ks (mem p)))
         (untrimmed_received C mem feerate_per_kw dust_limit sd htlcs)
     @ (if amount_msat_greater_eq_sat self_pay dust_limit
        then [Some (to_self_wscript C to_self_delay ks)] else [])
     @ (if amount_msat_greater_eq_sat other_pay dust_limit then [None] else [])"

definition write_seg :: "'a list \<Rightarrow> nat \<Rightarrow> 'a list \<Rightarrow> 'a list" where
  "write_seg xs n ws = take n xs @ ws @ drop (n + length ws) xs"

definition built_cltvs ::
  "collaborators \<Rightarrow> uninit \<Rightarrow> (addr \<Rightarrow> htlc) \<Rightarrow> nat \<Rightarrow> amount_sat \<Rightarrow> addr list \<Rightarrow> side
     \<Rightarrow> nat list" where
  "built_cltvs C U mem feerate_per_kw dust_limit htlcs sd =
     write_seg
       (tal_arr (cltvs_junk U)
          (commit_tx_num_untrimmed C mem htlcs feerate_per_kw dust_limit sd + 2)) 0
       (map (\<lambda>p. abs_locktime_to_blocks (expiry (mem p)))
          (untrimmed_offered C mem feerate_per_kw dust_limit sd htlcs
           @ untrimmed_received C mem feerate_per_kw dust_limit sd htlcs))"

definition clear_markers :: "addr list \<Rightarrow> addr list" where
  "clear_markers hmap =
     map (\<lambda>p. if p = dummy_to_local \<or> p = dummy_to_remote then NULL else p) hmap"

text \<open>
  How a map entry written by the emission steps relates to the output written with it:
  an HTLC pointer goes with the output built from that HTLC, the \<open>to_local\<close> marker
  \<open>ml\<close> with the \<open>to_local\<close> output, the \<open>to_remote\<close> marker \<open>mr\<close> with the \<open>to_remote\<close>
  output.
\<close>

definition entry_matches ::
  "collaborators \<Rightarrow> (addr \<Rightarrow> htlc) \<Rightarrow> nat \<Rightarrow> keyset \<Rightarrow> nat \<Rightarrow> amount_sat
     \<Rightarrow> amount_msat \<Rightarrow> amount_msat \<Rightarrow> addr list \<Rightarrow> side \<Rightarrow> addr \<Rightarrow> addr
     \<Rightarrow> addr \<Rightarrow> wally_tx_output \<Rightarrow> bool" where
  "entry_matches C mem to_self_delay ks feerate_per_kw dust_limit self_pay other_pay htlcs sd
      ml mr p out =
     (p \<in> set htlcs \<and> \<not> trim C (mem p) feerate_per_kw dust_limit sd
        \<and> out = htlc_output C ks sd (mem p)
      \<or> amount_msat_greater_eq_sat self_pay dust_limit \<and> p = ml
        \<and> out = to_local_output C to_self_delay ks self_pay
      \<or> amount_msat_greater_eq_sat other_pay dust_limit \<and> p = mr
        \<and> out = to_remote_output C ks other_pay)"

text \<open>
  The balances \<open>(self_pay, other_pay)\<close> as \<open>commit_tx\<close> holds them after line 179: the fee
  for the untrimmed HTLCs has been taken from the opener's side.
\<close>

definition balances_after_fee ::
  "collaborators \<Rightarrow> (addr \<Rightarrow> htlc) \<Rightarrow> side \<Rightarrow> nat \<Rightarrow> amount_sat
     \<Rightarrow> amount_msat \<Rightarrow> amount_msat \<Rightarrow> addr list \<Rightarrow> side \<Rightarrow> amount_msat \<times> amount_msat" where
  "balances_after_fee C mem opener feerate_per_kw dust_limit self_pay other_pay htlcs sd =
     try_subtract_fee opener sd
       (commit_tx_base_fee C feerate_per_kw
          (commit_tx_num_untrimmed C mem htlcs feerate_per_kw dust_limit sd))
       self_pay other_pay"

section \<open>A concrete call\<close>

text \<open>
  One choice of collaborators and one channel state, used to run the model: two untrimmed
  HTLCs (one offered by each side) and one trimmed one, with the weights of BOLT 3 in the
  fee and trimming formulas and tagging functions in place of the script generators.
\<close>

definition ex_collab :: collaborators where
  "ex_collab =
     \<lparr>htlc_is_trimmed = (\<lambda>own amt feerate dust sd.
         amt div 1000 < dust + (if own = sd then 663 else 703) * feerate div 1000),
      commit_tx_base_fee = (\<lambda>feerate n. feerate * (724 + 172 * n) div 1000),
      ripemd160 = take 20,
      htlc_offered_wscript = (\<lambda>r ks. 1 # r),
      htlc_received_wscript = (\<lambda>r e ks. 2 # r),
      to_self_wscript = (\<lambda>d ks. [3]),
      scriptpubkey_p2wsh = (\<lambda>w. 0 # 32 # w),
      scriptpubkey_p2wpkh = (\<lambda>k. 0 # 20 # k)\<rparr>"

definition ex_uninit :: uninit where
  "ex_uninit = \<lparr>htlcmap_junk = (\<lambda>_. 7), cltvs_junk = (\<lambda>_. 9)\<rparr>"

definition ex_keyset :: keyset where
  "ex_keyset =
     \<lparr>self_revocation_key = [1], self_htlc_key = [2], other_htlc_key = [3],
      self_delayed_payment_key = [4], self_payment_key = [5], other_payment_key = [6]\<rparr>"

definition ex_mem :: "addr \<Rightarrow> htlc" where
  "ex_mem p =
     (if p = 16 then
        \<lparr>htlc_id = 0, amount = 5000000, rhash = [10], expiry = 500, owner = LOCAL\<rparr>
      else if p = 32 then
        \<lparr>htlc_id = 1, amount = 4000000, rhash = [11], expiry = 501, owner = REMOTE\<rparr>
      else
        \<lparr>htlc_id = 2, amount = 100000, rhash = [12], expiry = 502, owner = LOCAL\<rparr>)"

definition ex_commit_tx :: "amount_msat \<Rightarrow> amount_msat \<Rightarrow> addr list \<Rightarrow> bool \<Rightarrow> error + commit_result" where
  "ex_commit_tx self_pay other_pay htlcs direct_outputs =
     commit_tx ex_collab ex_uninit ex_mem [0xAA] 0 100000 LOCAL 144 ex_keyset 253 546
       self_pay other_pay htlcs direct_outputs 0x123456789ABC LOCAL"

text \<open>What the model returns for the call with both untrimmed HTLCs.\<close>

definition ex_result :: commit_result where
  "ex_result =
     \<lparr>res_tx =
        \<lparr>input_amounts = [100000],
         wtx = \<lparr>version = 2, locktime = 0x20789ABC,
                inputs = [\<lparr>txhash = [0xAA], txout_index = 0, sequence = 0x80123456\<rparr>],
                outputs =
                  [\<lparr>satoshi = 4000, script = [0, 32, 2, 11]\<rparr>,
                   \<lparr>satoshi = 5000, script = [0, 32, 1, 10]\<rparr>,
                   \<lparr>satoshi = 31000, script = [0, 20, 6]\<rparr>,
                   \<lparr>satoshi = 59730, script = [0, 32, 3]\<rparr>],
                outputs_allocation_len = 4\<rparr>,
         output_witscripts = [Some [2, 11], Some [1, 10], None, Some [3]]\<rparr>,
      res_htlcmap = [32, 16, 0, 0],
      res_direct_outputs = Some (Some 3, Some 2)\<rparr>"

text \<open>The same call with a third, trimmed HTLC in the list and no direct outputs requested.\<close>

definition ex_result_trimmed :: commit_result where
  "ex_result_trimmed =
     \<lparr>res_tx =
        \<lparr>input_amounts = [100000],
         wtx = \<lparr>version = 2, locktime = 0x20789ABC,
                inputs = [\<lparr>txhash = [0xAA], txout_index = 0, sequence = 0x80123456\<rparr>],
                outputs =
                  [\<lparr>satoshi = 4000, script = [0, 32, 2, 11]\<rparr>,
                   \<lparr>satoshi = 5000, script = [0, 32, 1, 10]\<rparr>,
                   \<lparr>satoshi = 30900, script = [0, 20, 6]\<rparr>,
                   \<lparr>satoshi = 59730, script = [0, 32, 3]\<rparr>],
                outputs_allocation_len = 4\<rparr>,
         output_witscripts = [Some [2, 11], Some [1, 10], None, Some [3]]\<rparr>,
      res_htlcmap = [32, 16, 0, 0],
      res_direct_outputs = None\<rparr>"

text \<open>
  A call without HTLCs in which the opener's balance falls below the dust limit once the
  fee is taken: only the \<open>to_remote\<close> output is left.
\<close>

definition ex_result_dust :: commit_result where
  "ex_result_dust =
     \<lparr>res_tx =
        \<lparr>input_amounts = [100000],
         wtx = \<lparr>version = 2, locktime = 0x20789ABC,
                inputs = [\<lparr>txhash = [0xAA], txout_index = 0, sequence = 0x80123456\<rparr>],
                outputs = [\<lparr>satoshi = 99800, script = [0, 20, 6]\<rparr>],
                outputs_allocation_len = 2\<rparr>,
         output_witscripts = [None]\<rparr>,
      res_htlcmap = [0],
      res_direct_outputs = Some (None, Some 0)\<rparr>"

text \<open>A memory with a second HTLC offered by the local side, and the result for the two.\<close>

definition ex_mem2 :: "addr \<Rightarrow> htlc" where
  "ex_mem2 p =
     (if p = 64 then
        \<lparr>htlc_id = 3, amount = 3000000, rhash = [13], expiry = 503, owner = LOCAL\<rparr>
      else ex_mem p)"

definition ex_result_offered :: commit_result where
  "ex_result_offered =
     \<lparr>res_tx =
        \<lparr>input_amounts = [100000],
         wtx = \<lparr>version = 2, locktime = 0x20789ABC,
                inputs = [\<lparr>txhash = [0xAA], txout_index = 0, sequence = 0x80123456\<rparr>],
                outputs =
                  [\<lparr>satoshi = 3000, script = [0, 32, 1, 13]\<rparr>,
                   \<lparr>satoshi = 5000, script = [0, 32, 1, 10]\<rparr>,
                   \<lparr>satoshi = 32000, script = [0, 20, 6]\<rparr>,
                   \<lparr>satoshi = 59730, script = [0, 32, 3]\<rparr>],
                outputs_allocation_len = 4\<rparr>,
         output_witscripts = [Some [1, 13], Some [1, 10], None, Some [3]]\<rparr>,
      res_htlcmap = [64, 16, 0, 0],
      res_direct_outputs = Some (Some 3, Some 2)\<rparr>"

section \<open>What the caller has validated\<close>

text \<open>
  The conditions on the inputs under which no abort or assertion of \<open>commit_tx\<close> fires:
  the two balances add up without overflow to at most the funding amount, the HTLC
  amounts are 64-bit values, and something is left to emit: an untrimmed HTLC, or a balance
  that still meets the dust limit after the fee.
\<close>

definition validated_inputs ::
  "collaborators \<Rightarrow> (addr \<Rightarrow> htlc) \<Rightarrow> amount_sat \<Rightarrow> side \<Rightarrow> nat \<Rightarrow> amount_sat
     \<Rightarrow> amount_msat \<Rightarrow> amount_msat \<Rightarrow> addr list \<Rightarrow> side \<Rightarrow> bool" where
  "validated_inputs C mem funding opener feerate_per_kw dust_limit self_pay other_pay htlcs sd =
     (self_pay + other_pay < 2 ^ 64
      \<and> self_pay + other_pay \<le> funding * 1000
      \<and> list_all (\<lambda>p. amount (mem p) < 2 ^ 64) htlcs
      \<and> (list_ex (\<lambda>p. \<not> trim C (mem p) feerate_per_kw dust_limit sd) htlcs
         \<or> amount_msat_greater_eq_sat
              (fst (balances_after_fee C mem opener feerate_per_kw dust_limit
                      self_pay other_pay htlcs sd)) dust_limit
         \<or> amount_msat_greater_eq_sat
              (snd (balances_after_fee C mem opener feerate_per_kw dust_limit
                      self_pay other_pay htlcs sd)) dust_limit))"

section \<open>Array segments\<close>

lemma write_seg_Nil [simp]: "write_seg xs n [] = xs"
  by (simp add: write_seg_def)

lemma write_seg_update:
  "n < length xs \<Longrightarrow> write_seg (xs[n := v]) (Suc n) ws = write_seg xs n (v # ws)"
  by (simp add: write_seg_def take_Suc_conv_app_nth)

lemma length_write_seg [simp]:
  "n + length ws \<le> length xs \<Longrightarrow> length (write_seg xs n ws) = length xs"
  by (simp add: write_seg_def)

lemma take_write_seg:
  "n \<le> length xs \<Longrightarrow> take (n + length ws) (write_seg xs n ws) = take n xs @ ws"
  by (simp add: write_seg_def)

lemma write_seg_write_seg:
  "n + length ws \<le> length xs \<Longrightarrow>
   write_seg (write_seg xs n ws) (n + length ws) ws' = write_seg xs n (ws @ ws')"
  by (simp add: write_seg_def ac_simps)

lemma update_write_seg:
  "n + length ws < length xs \<Longrightarrow>
   (write_seg xs n ws)[n + length ws := v] = write_seg xs n (ws @ [v])"
  by (simp add: write_seg_def list_update_append upd_conv_take_nth_drop ac_simps)

section \<open>The emission loops\<close>

lemma add_offered_htlc_out_eq:
  "add_offered_htlc_out C tx n h ks =
     tx\<lparr>wtx := (wtx tx)\<lparr>outputs := outputs (wtx tx) @ [offered_htlc_output C ks h]\<rparr>,
        output_witscripts := (output_witscripts tx)[n := Some (offered_wscript C ks h)]\<rparr>"
  by (simp add: add_offered_htlc_out_def Let_def bitcoin_tx_add_output_def
      offered_htlc_output_def offered_wscript_def)

lemma add_received_htlc_out_eq:
  "add_received_htlc_out C tx n h ks =
     tx\<lparr>wtx := (wtx tx)\<lparr>outputs := outputs (wtx tx) @ [received_htlc_output C ks h]\<rparr>,
        output_witscripts := (output_witscripts tx)[n := Some (received_wscript C ks h)]\<rparr>"
  by (simp add: add_received_htlc_out_def Let_def bitcoin_tx_add_output_def
      received_htlc_output_def received_wscript_def)

lemma add_offered_htlcs_closed:
  assumes "st_n s + length (untrimmed_offered C mem fr dl sd ps) \<le> length (st_htlcmap s)"
    and "st_n s + length (untrimmed_offered C mem fr dl sd ps) \<le> length (st_cltvs s)"
    and "st_n s + length (untrimmed_offered C mem fr dl sd ps)
           \<le> length (output_witscripts (st_tx s))"
  shows "add_offered_htlcs C mem ks fr dl sd ps s =
     \<lparr>st_tx = (st_tx s)
         \<lparr>wtx := (wtx (st_tx s))\<lparr>outputs := outputs (wtx (st_tx s))
              @ map (\<lambda>p. offered_htlc_output C ks (mem p))
                  (untrimmed_offered C mem fr dl sd ps)\<rparr>,
          output_witscripts := write_seg (output_witscripts (st_tx s)) (st_n s)
              (map (\<lambda>p. Some (offered_wscript C ks (mem p)))
                 (untrimmed_offered C mem fr dl sd ps))\<rparr>,
      st_htlcmap = write_seg (st_htlcmap s) (st_n s) (untrimmed_offered C mem fr dl sd ps),
      st_cltvs = write_seg (st_cltvs s) (st_n s)
         (map (\<lambda>p. abs_locktime_to_blocks (expiry (mem p)))
            (untrimmed_offered C mem fr dl sd ps)),
      st_n = st_n s + length (untrimmed_offered C mem fr dl sd ps)\<rparr>"
  using assms
proof (induction ps arbitrary: s)
  case Nil
  then show ?case by (simp add: untrimmed_offered_def)
next
  case (Cons p ps)
  show ?case
  proof (cases "htlc_owner (mem p) = sd \<and> \<not> trim C (mem p) fr dl sd")
    case False
    then have "untrimmed_offered C mem fr dl sd (p # ps) = untrimmed_offered C mem fr dl sd ps"
      by (auto simp: untrimmed_offered_def)
    with Cons False show ?thesis by auto
  next
    case True
    then have W: "untrimmed_offered C mem fr dl sd (p # ps)
                    = p # untrimmed_offered C mem fr dl sd ps"
      by (simp add: untrimmed_offered_def)
    have step: "add_offered_htlcs C mem ks fr dl sd (p # ps) s =
        add_offered_htlcs C mem ks fr dl sd ps
          \<lparr>st_tx = add_offered_htlc_out C (st_tx s) (st_n s) (mem p) ks,
           st_htlcmap = (st_htlcmap s)[st_n s := p],
           st_cltvs = (st_cltvs s)[st_n s := abs_locktime_to_blocks (expiry (mem p))],
           st_n = st_n s + 1\<rparr>"
      using True by simp
    have pre: "st_n s < length (st_htlcmap s)" "st_n s < length (st_cltvs s)"
        "st_n s < length (output_witscripts (st_tx s))"
      using Cons.prems unfolding W by simp_all
    show ?thesis
      unfolding step
      apply (subst Cons.IH)
      using Cons.prems pre unfolding W
         apply (simp_all add: add_offered_htlc_out_eq write_seg_update)
      done
  qed
qed

lemma add_received_htlcs_closed:
  assumes "st_n s + length (untrimmed_received C mem fr dl sd ps) \<le> length (st_htlcmap s)"
    and "st_n s + length (untrimmed_received C mem fr dl sd ps) \<le> length (st_cltvs s)"
    and "st_n s + length (untrimmed_received C mem fr dl sd ps)
           \<le> length (output_witscripts (st_tx s))"
  shows "add_received_htlcs C mem ks fr dl sd ps s =
     \<lparr>st_tx = (st_tx s)
         \<lparr>wtx := (wtx (st_tx s))\<lparr>outputs := outputs (wtx (st_tx s))
              @ map (\<lambda>p. received_htlc_output C ks (mem p))
                  (untrimmed_received C mem fr dl sd ps)\<rparr>,
          output_witscripts := write_seg (output_witscripts (st_tx s)) (st_n s)
              (map (\<lambda>p. Some (received_wscript C ks (mem p)))
                 (untrimmed_received C mem fr dl sd ps))\<rparr>,
      st_htlcmap = write_seg (st_htlcmap s) (st_n s) (untrimmed_received C mem fr dl sd ps),
      st_cltvs = write_seg (st_cltvs s) (st_n s)
         (map (\<lambda>p. abs_locktime_to_blocks (expiry (mem p)))
            (untrimmed_received C mem fr dl sd ps)),
      st_n = st_n s + length (untrimmed_received C mem fr dl sd ps)\<rparr>"
  using assms
proof (induction ps arbitrary: s)
  case Nil
  then show ?case by (simp add: untrimmed_received_def)
next
  case (Cons p ps)
  show ?case
  proof (cases "htlc_owner (mem p) \<noteq> sd \<and> \<not> trim C (mem p) fr dl sd")
    case False
    then have "untrimmed_received C mem fr dl sd (p # ps) = untrimmed_received C mem fr dl sd ps"
      by (auto simp: untrimmed_received_def)
    with Cons False show ?thesis by auto
  next
    case True
    then have W: "untrimmed_received C mem fr dl sd (p # ps)
                    = p # untrimmed_received C mem fr dl sd ps"
      by (simp add: untrimmed_received_def)
    have step: "add_received_htlcs C mem ks fr dl sd (p # ps) s =
        add_received_htlcs C mem ks fr dl sd ps
          \<lparr>st_tx = add_received_htlc_out C (st_tx s) (st_n s) (mem p) ks,
           st_htlcmap = (st_htlcmap s)[st_n s := p],
           st_cltvs = (st_cltvs s)[st_n s := abs_locktime_to_blocks (expiry (mem p))],
           st_n = st_n s + 1\<rparr>"
      using True by simp
    have pre: "st_n s < length (st_htlcmap s)" "st_n s < length (st_cltvs s)"
        "st_n s < length (output_witscripts (st_tx s))"
      using Cons.prems unfolding W by simp_all
    show ?thesis
      unfolding step
      apply (subst Cons.IH)
      using Cons.prems pre unfolding W
         apply (simp_all add: add_received_htlc_out_eq write_seg_update)
      done
  qed
qed

lemma num_untrimmed_eq_filter:
  "commit_tx_num_untrimmed C mem ps fr dl sd
     = length (filter (\<lambda>p. \<not> trim C (mem p) fr dl sd) ps)"
  by (induction ps) simp_all

lemma num_untrimmed_split:
  "commit_tx_num_untrimmed C mem ps fr dl sd
     = length (untrimmed_offered C mem fr dl sd ps)
       + length (untrimmed_received C mem fr dl sd ps)"
  by (induction ps) (simp_all add: untrimmed_offered_def untrimmed_received_def)


section \<open>The state after the four emission steps\<close>

lemma length_built_outputs_le:
  "length (built_outputs C mem tsd ks fr dl self_pay other_pay htlcs sd)
     \<le> commit_tx_num_untrimmed C mem htlcs fr dl sd + 2"
  by (simp add: built_outputs_def num_untrimmed_split)

lemma length_built_htlcmap:
  "length (built_htlcmap C mem fr dl self_pay other_pay htlcs direct sd)
     = length (built_outputs C mem tsd ks fr dl self_pay other_pay htlcs sd)"
  by (simp add: built_outputs_def built_htlcmap_def)

lemma length_built_witscripts:
  "length (built_witscripts C mem tsd ks fr dl self_pay other_pay htlcs sd)
     = length (built_outputs C mem tsd ks fr dl self_pay other_pay htlcs sd)"
  by (simp add: built_outputs_def built_witscripts_def)

lemma take_replicate_None_snoc:
  "length ws < n \<Longrightarrow>
   take (Suc (length ws)) (write_seg (replicate n None) 0 ws) = ws @ [None]"
  by (simp add: write_seg_def take_Suc_conv_app_nth)

lemma length_tal_arr [simp]: "length (tal_arr junk n) = n"
  by (simp add: tal_arr_def)

lemma write_seg0_append:
  "length ws \<le> length xs \<Longrightarrow>
   write_seg (write_seg xs 0 ws) (length ws) ws' = write_seg xs 0 (ws @ ws')"
  using write_seg_write_seg [of 0 ws xs ws'] by simp

lemma write_seg0_map_append:
  "length xs \<le> length ys \<Longrightarrow>
   write_seg (write_seg ys 0 (map f xs)) (length xs) ws' = write_seg ys 0 (map f xs @ ws')"
  using write_seg0_append [of "map f xs" ys ws'] by simp

lemma update_write_seg0:
  "length ws = k \<Longrightarrow> k < length xs \<Longrightarrow>
   (write_seg xs 0 ws)[k := v] = write_seg xs 0 (ws @ [v])"
  using update_write_seg [of 0 ws xs v] by simp

lemma take_write_seg0:
  "length ws = k \<Longrightarrow> take k (write_seg xs 0 ws) = ws"
  using take_write_seg [of 0 xs ws] by simp

lemma take_Suc_write_seg0_None:
  "length ws = k \<Longrightarrow> k < n \<Longrightarrow>
   take (Suc k) (write_seg (replicate n None) 0 ws) = ws @ [None]"
  using take_replicate_None_snoc [of ws n] by simp

lemma build_outputs_closed:
  assumes u: "untrimmed = commit_tx_num_untrimmed C mem htlcs fr dl sd"
  shows "\<exists>s4. build_outputs C U mem tsd ks fr dl self_pay other_pay htlcs direct sd untrimmed
                = Inr s4
     \<and> st_n s4 = length (built_outputs C mem tsd ks fr dl self_pay other_pay htlcs sd)
     \<and> wtx (st_tx s4) = \<lparr>version = 2, locktime = 0, inputs = [],
           outputs = built_outputs C mem tsd ks fr dl self_pay other_pay htlcs sd,
           outputs_allocation_len = untrimmed + 2\<rparr>
     \<and> input_amounts (st_tx s4) = []
     \<and> length (output_witscripts (st_tx s4)) = untrimmed + 2
     \<and> take (st_n s4) (output_witscripts (st_tx s4))
           = built_witscripts C mem tsd ks fr dl self_pay other_pay htlcs sd
     \<and> length (st_htlcmap s4) = untrimmed + 2
     \<and> take (st_n s4) (st_htlcmap s4)
           = built_htlcmap C mem fr dl self_pay other_pay htlcs direct sd
     \<and> st_cltvs s4 = built_cltvs C U mem fr dl htlcs sd"
proof -
  let ?off = "untrimmed_offered C mem fr dl sd htlcs"
  let ?rec = "untrimmed_received C mem fr dl sd htlcs"
  define A where "A = tal_arr (htlcmap_junk U) (untrimmed + 2)"
  define B where "B = tal_arr (cltvs_junk U) (untrimmed + 2)"
  define R where "R = (replicate (untrimmed + 2) None :: bytes option list)"
  have ulen: "length ?off + length ?rec = untrimmed"
    by (simp add: u num_untrimmed_split)
  have lens [simp]: "length A = untrimmed + 2" "length B = untrimmed + 2"
      "length R = untrimmed + 2"
    by (simp_all add: A_def B_def R_def)
  have Rnone: "take (Suc k) (write_seg R 0 ws) = ws @ [None]"
    if "length ws = k" "k < untrimmed + 2" for k ws
    using that unfolding R_def by (rule take_Suc_write_seg0_None)
  define s0 where "s0 = \<lparr>st_tx = \<lparr>input_amounts = [],
        wtx = \<lparr>version = 2, locktime = 0, inputs = [], outputs = [],
          outputs_allocation_len = untrimmed + 2\<rparr>,
        output_witscripts = R\<rparr>,
      st_htlcmap = A, st_cltvs = B, st_n = 0\<rparr>"
  define s1 where "s1 = add_offered_htlcs C mem ks fr dl sd htlcs s0"
  define s2 where "s2 = add_received_htlcs C mem ks fr dl sd htlcs s1"
  define s3 where "s3 = add_to_local C tsd ks dl self_pay direct s2"
  have bo: "build_outputs C U mem tsd ks fr dl self_pay other_pay htlcs direct sd untrimmed
      = add_to_remote C ks dl other_pay direct s3"
    by (simp add: build_outputs_def Let_def s3_def s2_def s1_def s0_def bitcoin_tx_def
        A_def B_def R_def)
  have s1: "s1 = \<lparr>st_tx = \<lparr>input_amounts = [],
        wtx = \<lparr>version = 2, locktime = 0, inputs = [],
          outputs = map (\<lambda>p. offered_htlc_output C ks (mem p)) ?off,
          outputs_allocation_len = untrimmed + 2\<rparr>,
        output_witscripts = write_seg R 0
           (map (\<lambda>p. Some (offered_wscript C ks (mem p))) ?off)\<rparr>,
      st_htlcmap = write_seg A 0 ?off,
      st_cltvs = write_seg B 0
         (map (\<lambda>p. abs_locktime_to_blocks (expiry (mem p))) ?off),
      st_n = length ?off\<rparr>"
    unfolding s1_def
    by (subst add_offered_htlcs_closed) (use ulen in \<open>simp_all add: s0_def\<close>)
  have s2: "s2 = \<lparr>st_tx = \<lparr>input_amounts = [],
        wtx = \<lparr>version = 2, locktime = 0, inputs = [],
          outputs = map (\<lambda>p. offered_htlc_output C ks (mem p)) ?off
                    @ map (\<lambda>p. received_htlc_output C ks (mem p)) ?rec,
          outputs_allocation_len = untrimmed + 2\<rparr>,
        output_witscripts = write_seg R 0
           (map (\<lambda>p. Some (offered_wscript C ks (mem p))) ?off
            @ map (\<lambda>p. Some (received_wscript C ks (mem p))) ?rec)\<rparr>,
      st_htlcmap = write_seg A 0 (?off @ ?rec),
      st_cltvs = write_seg B 0
         (map (\<lambda>p. abs_locktime_to_blocks (expiry (mem p))) (?off @ ?rec)),
      st_n = untrimmed\<rparr>"
    unfolding s2_def
    by (subst add_received_htlcs_closed)
       (use ulen in \<open>simp_all add: s1 write_seg0_append write_seg0_map_append\<close>)
  have cl: "write_seg B 0
         (map (\<lambda>p. abs_locktime_to_blocks (expiry (mem p))) ?off
          @ map (\<lambda>p. abs_locktime_to_blocks (expiry (mem p))) ?rec)
       = built_cltvs C U mem fr dl htlcs sd"
    by (simp add: built_cltvs_def u B_def)
  show ?thesis
    unfolding bo s3_def add_to_local_def add_to_remote_def
    using ulen
    by (cases "amount_msat_greater_eq_sat self_pay dl";
        cases "amount_msat_greater_eq_sat other_pay dl")
       (simp_all add: s2 Let_def bitcoin_tx_add_output_def built_outputs_def
          built_htlcmap_def built_witscripts_def cl to_local_output_def to_remote_output_def
          update_write_seg0 take_write_seg0 Rnone del: take_all)
qed

section \<open>The permutation\<close>

lemma mset_output_permutation:
  "mset (output_permutation outs cl) = mset [0..<length outs]"
  by (simp add: output_permutation_def)

lemma length_output_permutation [simp]:
  "length (output_permutation outs cl) = length outs"
  by (simp add: output_permutation_def)

lemma set_output_permutation [simp]:
  "set (output_permutation outs cl) = {0..<length outs}"
  by (simp add: output_permutation_def)

lemma mset_map_nth_permutation:
  assumes "mset perm = mset [0..<length xs]"
  shows "mset (map (\<lambda>i. xs ! i) perm) = mset xs"
proof -
  have "mset (map (\<lambda>i. xs ! i) perm) = image_mset (\<lambda>i. xs ! i) (mset perm)"
    by simp
  also have "\<dots> = mset (map (\<lambda>i. xs ! i) [0..<length xs])"
    by (simp add: assms)
  also have "\<dots> = mset xs"
    by (simp add: map_nth)
  finally show ?thesis .
qed

lemma mset_permuted_outputs:
  "mset (map (\<lambda>i. outs ! i) (output_permutation outs cl)) = mset outs"
  by (rule mset_map_nth_permutation) (rule mset_output_permutation)

lemma set_permuted_outputs:
  "set (map (\<lambda>i. outs ! i) (output_permutation outs cl)) = set outs"
  using mset_permuted_outputs [of outs cl] by (metis set_mset_mset)

lemma map_nth_take_permutation:
  assumes "take n ws = bw" and "length outs = n"
  shows "map (\<lambda>i. ws ! i) (output_permutation outs cl)
           = map (\<lambda>i. bw ! i) (output_permutation outs cl)"
proof (rule map_cong [OF refl])
  fix i assume "i \<in> set (output_permutation outs cl)"
  then have "i < n" using assms(2) by simp
  then show "ws ! i = bw ! i" using assms(1) by auto
qed

section \<open>The whole call in closed form\<close>

lemma commit_tx_closed:
  fixes C U mem funding_txid funding_txout funding opener tsd ks fr dl self_pay other_pay
    htlcs direct n sd
  defines "u \<equiv> commit_tx_num_untrimmed C mem htlcs fr dl sd"
  defines "pays \<equiv> try_subtract_fee opener sd (commit_tx_base_fee C fr u) self_pay other_pay"
  defines "bo \<equiv> built_outputs C mem tsd ks fr dl (fst pays) (snd pays) htlcs sd"
  defines "bm \<equiv> built_htlcmap C mem fr dl (fst pays) (snd pays) htlcs direct sd"
  defines "bw \<equiv> built_witscripts C mem tsd ks fr dl (fst pays) (snd pays) htlcs sd"
  defines "perm \<equiv> output_permutation bo (built_cltvs C U mem fr dl htlcs sd)"
  shows "commit_tx C U mem funding_txid funding_txout funding opener tsd ks fr dl
           self_pay other_pay htlcs direct n sd =
     (if \<not> self_pay + other_pay < 2 ^ 64 then Inl Abort_amount_overflow
      else if self_pay + other_pay > funding * 1000 then Inl Assert_total_pay_exceeds_funding
      else if bo = [] then Inl Assert_n_positive
      else if \<not> list_all (\<lambda>out. satoshi out < 2 ^ 64) bo then Inl Assert_bitcoin_tx_check
      else Inr \<lparr>res_tx = \<lparr>input_amounts = [funding],
                  wtx = \<lparr>version = 2,
                     locktime = ucast (0x20000000 OR (n AND 0xFFFFFF)),
                     inputs = [\<lparr>txhash = funding_txid, txout_index = funding_txout,
                        sequence = ucast (0x80000000 OR (drop_bit 24 n AND 0xFFFFFF))\<rparr>],
                     outputs = map (\<lambda>i. bo ! i) perm,
                     outputs_allocation_len = u + 2\<rparr>,
                  output_witscripts = map (\<lambda>i. bw ! i) perm\<rparr>,
                res_htlcmap = (if direct
                   then fst (identify_direct_outputs [0..<length bo]
                               (map (\<lambda>i. bm ! i) perm) (None, None))
                   else map (\<lambda>i. bm ! i) perm),
                res_direct_outputs = (if direct
                   then Some (snd (identify_direct_outputs [0..<length bo]
                               (map (\<lambda>i. bm ! i) perm) (None, None)))
                   else None)\<rparr>)"
proof -
  obtain s4 where
    b: "build_outputs C U mem tsd ks fr dl (fst pays) (snd pays) htlcs direct sd u = Inr s4"
    and n4: "st_n s4 = length bo"
    and w4: "wtx (st_tx s4) = \<lparr>version = 2, locktime = 0, inputs = [],
           outputs = bo, outputs_allocation_len = u + 2\<rparr>"
    and ia4: "input_amounts (st_tx s4) = []"
    and lw4: "length (output_witscripts (st_tx s4)) = u + 2"
    and tw4: "take (st_n s4) (output_witscripts (st_tx s4)) = bw"
    and lm4: "length (st_htlcmap s4) = u + 2"
    and tm4: "take (st_n s4) (st_htlcmap s4) = bm"
    and c4: "st_cltvs s4 = built_cltvs C U mem fr dl htlcs sd"
    using build_outputs_closed [of u C mem htlcs fr dl sd U tsd ks "fst pays" "snd pays" direct]
    unfolding u_def bo_def bm_def bw_def by blast
  have le: "length bo \<le> u + 2"
    unfolding bo_def u_def by (rule length_built_outputs_le)
  have ws: "map (\<lambda>i. output_witscripts (st_tx s4) ! i) perm = map (\<lambda>i. bw ! i) perm"
    unfolding perm_def using tw4 n4 by (intro map_nth_take_permutation) simp_all
  have chk: "list_all P (map (\<lambda>i. bo ! i) perm) = list_all P bo" for P
    unfolding perm_def list_all_iff set_permuted_outputs ..
  have lp: "length perm = length bo"
    by (simp add: perm_def)
  have pne: "perm \<noteq> []" if "bo \<noteq> []"
    using that lp by (cases perm) auto
  have tx4: "st_tx s4 = \<lparr>input_amounts = [], wtx = wtx (st_tx s4),
                 output_witscripts = output_witscripts (st_tx s4)\<rparr>"
    using ia4 by (intro bitcoin_tx.equality) simp_all
  have tx5: "permute_outputs (st_tx s4) (st_cltvs s4) (take (st_n s4) (st_htlcmap s4))
      = (\<lparr>input_amounts = [],
           wtx = \<lparr>version = 2, locktime = 0, inputs = [],
              outputs = map (\<lambda>i. bo ! i) perm, outputs_allocation_len = u + 2\<rparr>,
           output_witscripts = map (\<lambda>i. bw ! i) perm
              @ drop (length bo) (output_witscripts (st_tx s4))\<rparr>,
         map (\<lambda>i. bm ! i) perm)"
    apply (subst tx4)
    apply (simp add: permute_outputs_def Let_def w4 c4 tm4 perm_def [symmetric] ws
        split del: if_split)
    done
  show ?thesis
  proof (cases "self_pay + other_pay < 2 ^ 64")
    case False
    then show ?thesis
      by (simp add: commit_tx_def amount_msat_add_def)
  next
    case ovf: True
    show ?thesis
    proof (cases "self_pay + other_pay > funding * 1000")
      case True
      with ovf show ?thesis
        by (simp add: commit_tx_def amount_msat_add_def amount_msat_greater_sat_def)
    next
      case tot: False
      have start: "commit_tx C U mem funding_txid funding_txout funding opener tsd ks fr dl
           self_pay other_pay htlcs direct n sd =
          (if \<not> (st_n s4 > 0) then Inl Assert_n_positive
               else if \<not> (st_n s4 \<le> outputs_allocation_len (wtx (st_tx s4)))
                 then Inl Assert_n_within_allocation
               else
                 let (tx5, hmap5) =
                        permute_outputs (st_tx s4) (st_cltvs s4) (take (st_n s4) (st_htlcmap s4))
                 in if version (wtx tx5) \<noteq> 2 then Inl Assert_version_2
                    else
                      let tx6 = tx5\<lparr>wtx := (wtx tx5)\<lparr>locktime :=
                                   ucast (0x20000000 OR (n AND 0xFFFFFF))\<rparr>\<rparr>;
                          sequ = (ucast (0x80000000
                                   OR (drop_bit 24 n AND 0xFFFFFF)) :: u32);
                          tx7 = bitcoin_tx_add_input tx6 funding_txid funding_txout sequ funding;
                          (hmap8, direct') =
                             (if direct then
                                map_prod id Some
                                  (identify_direct_outputs [0..<length (outputs (wtx tx7))]
                                     hmap5 (None, None))
                              else (hmap5, None));
                          tx8 = bitcoin_tx_finalize tx7
                      in if \<not> bitcoin_tx_check tx8 then Inl Assert_bitcoin_tx_check
                         else Inr \<lparr>res_tx = tx8, res_htlcmap = hmap8,
                                   res_direct_outputs = direct'\<rparr>)"
        unfolding commit_tx_def
        using ovf tot
        by (simp add: amount_msat_add_def amount_msat_greater_sat_def Let_def case_prod_beta
            pays_def [symmetric] u_def [symmetric] b split del: if_split cong: if_cong)
      show ?thesis
      proof (cases "bo = []")
        case True
        with ovf tot show ?thesis
          unfolding start by (simp add: n4)
      next
        case ne: False
        show ?thesis
          unfolding start tx5
          using ovf tot ne le lp pne
          by (cases direct)
             (simp_all add: n4 w4 Let_def bitcoin_tx_add_input_def bitcoin_tx_finalize_def
               bitcoin_tx_check_def chk case_prod_beta)
      qed
    qed
  qed
qed

lemma commit_tx_Inr:
  fixes C U mem funding_txid funding_txout funding opener tsd ks fr dl self_pay other_pay
    htlcs direct n sd r
  defines "u \<equiv> commit_tx_num_untrimmed C mem htlcs fr dl sd"
  defines "pays \<equiv> balances_after_fee C mem opener fr dl self_pay other_pay htlcs sd"
  defines "bo \<equiv> built_outputs C mem tsd ks fr dl (fst pays) (snd pays) htlcs sd"
  defines "bm \<equiv> built_htlcmap C mem fr dl (fst pays) (snd pays) htlcs direct sd"
  defines "bw \<equiv> built_witscripts C mem tsd ks fr dl (fst pays) (snd pays) htlcs sd"
  defines "perm \<equiv> output_permutation bo (built_cltvs C U mem fr dl htlcs sd)"
  assumes ok: "commit_tx C U mem funding_txid funding_txout funding opener tsd ks fr dl
           self_pay other_pay htlcs direct n sd = Inr r"
  shows "self_pay + other_pay < 2 ^ 64"
    and "self_pay + other_pay \<le> funding * 1000"
    and "bo \<noteq> []"
    and "list_all (\<lambda>out. satoshi out < 2 ^ 64) bo"
    and "res_tx r = \<lparr>input_amounts = [funding],
                  wtx = \<lparr>version = 2,
                     locktime = ucast (0x20000000 OR (n AND 0xFFFFFF)),
                     inputs = [\<lparr>txhash = funding_txid, txout_index = funding_txout,
                        sequence = ucast (0x80000000 OR (drop_bit 24 n AND 0xFFFFFF))\<rparr>],
                     outputs = map (\<lambda>i. bo ! i) perm,
                     outputs_allocation_len = u + 2\<rparr>,
                  output_witscripts = map (\<lambda>i. bw ! i) perm\<rparr>"
    and "res_htlcmap r = (if direct
                   then fst (identify_direct_outputs [0..<length bo]
                               (map (\<lambda>i. bm ! i) perm) (None, None))
                   else map (\<lambda>i. bm ! i) perm)"
    and "res_direct_outputs r = (if direct
                   then Some (snd (identify_direct_outputs [0..<length bo]
                               (map (\<lambda>i. bm ! i) perm) (None, None)))
                   else None)"
  using ok
  unfolding commit_tx_closed u_def pays_def bo_def bm_def bw_def perm_def balances_after_fee_def
  by (auto split: if_splits)

lemma commit_tx_Inr_iff:
  fixes C U mem funding_txid funding_txout funding opener tsd ks fr dl self_pay other_pay
    htlcs direct n sd
  defines "pays \<equiv> balances_after_fee C mem opener fr dl self_pay other_pay htlcs sd"
  defines "bo \<equiv> built_outputs C mem tsd ks fr dl (fst pays) (snd pays) htlcs sd"
  shows "(\<exists>r. commit_tx C U mem funding_txid funding_txout funding opener tsd ks fr dl
           self_pay other_pay htlcs direct n sd = Inr r)
     \<longleftrightarrow> self_pay + other_pay < 2 ^ 64 \<and> self_pay + other_pay \<le> funding * 1000
         \<and> bo \<noteq> [] \<and> list_all (\<lambda>out. satoshi out < 2 ^ 64) bo"
  unfolding commit_tx_closed pays_def bo_def balances_after_fee_def
  by (auto split: if_splits)

section \<open>Bits of the obscured commitment number\<close>

lemma numeral_FFFFFF_mask: "(0xFFFFFF :: 'a::len word) = mask 24"
  by (simp add: mask_eq_exp_minus_1)

lemma bit_0x20000000: "bit (0x20000000 :: int) k \<longleftrightarrow> k = 29"
  using bit_exp_iff [where ?'a = int, of 29 k] by auto

lemma bit_0x80000000: "bit (0x80000000 :: int) k \<longleftrightarrow> k = 31"
  using bit_exp_iff [where ?'a = int, of 31 k] by auto

lemma locktime_fits:
  "(ucast (ucast (0x20000000 OR (n AND 0xFFFFFF) :: u64) :: u32) :: u64)
     = 0x20000000 OR (n AND 0xFFFFFF)"
  unfolding numeral_FFFFFF_mask
  by (rule bit_word_eqI) (auto simp: bit_simps bit_0x20000000)

lemma sequence_fits:
  "(ucast (ucast (0x80000000 OR (drop_bit 24 n AND 0xFFFFFF) :: u64) :: u32) :: u64)
     = 0x80000000 OR (drop_bit 24 n AND 0xFFFFFF)"
  unfolding numeral_FFFFFF_mask
  by (rule bit_word_eqI) (auto simp: bit_simps bit_0x80000000)

lemma bit_below_48:
  fixes n :: u64
  assumes "n < 2 ^ 48" "bit n k"
  shows "k < 48"
proof (rule ccontr)
  assume "\<not> k < 48"
  then have "48 \<le> k" by simp
  have "n AND mask 48 = n"
    using assms(1) by (rule less_mask_eq)
  then have "bit (n AND mask 48) k" using assms(2) by simp
  then show False using \<open>48 \<le> k\<close> by (simp add: bit_simps)
qed

lemma obscured_number_roundtrip:
  fixes n :: u64
  assumes "n < 2 ^ 48"
  shows "ucast ((ucast (0x20000000 OR (n AND 0xFFFFFF)) :: u32) AND 0xFFFFFF)
         OR push_bit 24 (ucast ((ucast (0x80000000 OR (drop_bit 24 n AND 0xFFFFFF)) :: u32)
                AND 0xFFFFFF)) = n"
  unfolding numeral_FFFFFF_mask
proof (rule bit_word_eqI)
  fix k
  assume "k < LENGTH(64)"
  show "bit (ucast ((ucast (0x20000000 OR (n AND mask 24)) :: u32) AND mask 24)
         OR push_bit 24 (ucast ((ucast (0x80000000 OR (drop_bit 24 n AND mask 24)) :: u32)
                AND mask 24)) :: u64) k \<longleftrightarrow> bit n k"
  proof (cases "bit n k")
    case True
    then have "k < 48" by (rule bit_below_48 [OF assms])
    with True show ?thesis by (auto simp: bit_simps bit_0x20000000 bit_0x80000000)
  next
    case False
    then show ?thesis by (auto simp: bit_simps bit_0x20000000 bit_0x80000000)
  qed
qed

section \<open>The loops without the array bounds\<close>

lemma add_offered_htlcs_n:
  "st_n (add_offered_htlcs C mem ks fr dl sd ps s)
     = st_n s + length (untrimmed_offered C mem fr dl sd ps)"
  by (induction ps arbitrary: s) (simp_all add: untrimmed_offered_def)

lemma add_received_htlcs_n:
  "st_n (add_received_htlcs C mem ks fr dl sd ps s)
     = st_n s + length (untrimmed_received C mem fr dl sd ps)"
  by (induction ps arbitrary: s) (simp_all add: untrimmed_received_def)

lemma add_offered_htlcs_outputs:
  "outputs (wtx (st_tx (add_offered_htlcs C mem ks fr dl sd ps s)))
     = outputs (wtx (st_tx s))
       @ map (\<lambda>p. offered_htlc_output C ks (mem p)) (untrimmed_offered C mem fr dl sd ps)"
  by (induction ps arbitrary: s)
     (simp_all add: untrimmed_offered_def add_offered_htlc_out_eq)

lemma add_received_htlcs_outputs:
  "outputs (wtx (st_tx (add_received_htlcs C mem ks fr dl sd ps s)))
     = outputs (wtx (st_tx s))
       @ map (\<lambda>p. received_htlc_output C ks (mem p)) (untrimmed_received C mem fr dl sd ps)"
  by (induction ps arbitrary: s)
     (simp_all add: untrimmed_received_def add_received_htlc_out_eq)


section \<open>The concrete call, evaluated\<close>

lemmas ex_defs = ex_collab_def ex_mem_def ex_keyset_def ex_uninit_def trim_def htlc_owner_def

lemma ex_u: "commit_tx_num_untrimmed ex_collab ex_mem [16, 32] 253 546 LOCAL = 2"
  by (simp add: ex_defs)

lemma ex_pays: "balances_after_fee ex_collab ex_mem LOCAL 253 546 60000000 31000000 [16, 32] LOCAL = (59730000, 31000000)"
  by (simp add: balances_after_fee_def try_subtract_fee_def amount_msat_sub_sat_floor_def
      ex_defs)

lemma ex_bo: "built_outputs ex_collab ex_mem 144 ex_keyset 253 546 59730000 31000000 [16, 32] LOCAL
   = [\<lparr>satoshi = 5000, script = [0, 32, 1, 10]\<rparr>,
      \<lparr>satoshi = 4000, script = [0, 32, 2, 11]\<rparr>,
      \<lparr>satoshi = 59730, script = [0, 32, 3]\<rparr>,
      \<lparr>satoshi = 31000, script = [0, 20, 6]\<rparr>]"
  by (simp add: built_outputs_def untrimmed_offered_def untrimmed_received_def ex_defs
      offered_htlc_output_def received_htlc_output_def to_local_output_def to_remote_output_def
      amount_msat_greater_eq_sat_def amount_msat_to_sat_round_down_def
      offered_wscript_def received_wscript_def)

lemma ex_bm: "built_htlcmap ex_collab ex_mem 253 546 59730000 31000000 [16, 32] True LOCAL
   = [16, 32, 1, 2]"
  by (simp add: built_htlcmap_def untrimmed_offered_def untrimmed_received_def ex_defs
      amount_msat_greater_eq_sat_def dummy_to_local_def dummy_to_remote_def)

lemma ex_bw: "built_witscripts ex_collab ex_mem 144 ex_keyset 253 546 59730000 31000000 [16, 32] LOCAL
   = [Some [1, 10], Some [2, 11], Some [3], None]"
  by (simp add: built_witscripts_def untrimmed_offered_def untrimmed_received_def ex_defs
      amount_msat_greater_eq_sat_def offered_wscript_def received_wscript_def)

lemma ex_cl: "built_cltvs ex_collab ex_uninit ex_mem 253 546 [16, 32] LOCAL = [500, 501, 9, 9]"
  by (simp add: built_cltvs_def write_seg_def tal_arr_def untrimmed_offered_def
      untrimmed_received_def ex_defs abs_locktime_to_blocks_def upt_rec)

lemma ex_perm: "output_permutation
    [\<lparr>satoshi = 5000, script = [0, 32, 1, 10]\<rparr>,
      \<lparr>satoshi = 4000, script = [0, 32, 2, 11]\<rparr>,
      \<lparr>satoshi = 59730, script = [0, 32, 3]\<rparr>,
      \<lparr>satoshi = 31000, script = [0, 20, 6]\<rparr>] [500, 501, 9, 9] = [1, 0, 3, 2]"
  by (simp add: output_permutation_def output_order_key_def upt_rec)


lemma ex_trim:
  "\<not> trim ex_collab (ex_mem 16) 253 546 LOCAL"
  "\<not> trim ex_collab (ex_mem 32) 253 546 LOCAL"
  by (simp_all add: ex_defs)

lemma ex_words:
  "(ucast (0x20000000 OR ((0x123456789ABC :: u64) AND 0xFFFFFF)) :: u32) = 0x20789ABC"
  "(ucast (0x80000000 OR (drop_bit 24 (0x123456789ABC :: u64) AND 0xFFFFFF)) :: u32) = 0x80123456"
  by simp_all

lemma ex_call:
  "commit_tx ex_collab ex_uninit ex_mem [0xAA] 0 100000 LOCAL 144 ex_keyset 253 546
     60000000 31000000 [16, 32] True 0x123456789ABC LOCAL = Inr ex_result"
proof -
  have "\<exists>r. commit_tx ex_collab ex_uninit ex_mem [0xAA] 0 100000 LOCAL 144 ex_keyset 253 546
     60000000 31000000 [16, 32] True 0x123456789ABC LOCAL = Inr r"
    unfolding commit_tx_Inr_iff by (simp add: ex_pays ex_bo)
  then obtain r where r: "commit_tx ex_collab ex_uninit ex_mem [0xAA] 0 100000 LOCAL 144
     ex_keyset 253 546 60000000 31000000 [16, 32] True 0x123456789ABC LOCAL = Inr r" ..
  have "r = ex_result"
    using commit_tx_Inr(5) [OF r] commit_tx_Inr(6) [OF r] commit_tx_Inr(7) [OF r]
    by (intro commit_result.equality)
       (simp_all add: ex_pays ex_bo ex_bm ex_bw ex_cl ex_perm ex_trim ex_words ex_result_def
          upt_rec dummy_to_local_def dummy_to_remote_def NULL_def)
  with r show ?thesis by simp
qed


section \<open>The scan for the direct outputs\<close>

lemma sentinels_distinct [simp]:
  "dummy_to_local \<noteq> dummy_to_remote" "dummy_to_remote \<noteq> dummy_to_local"
  "dummy_to_local \<noteq> NULL" "dummy_to_remote \<noteq> NULL"
  "NULL \<noteq> dummy_to_local" "NULL \<noteq> dummy_to_remote"
  by (simp_all add: dummy_to_local_def dummy_to_remote_def NULL_def)

lemma length_identify_direct_outputs [simp]:
  "length (fst (identify_direct_outputs idxs hmap d)) = length hmap"
  by (induction idxs arbitrary: hmap d) simp_all

lemma nth_identify_direct_outputs:
  assumes "distinct idxs" and "j < length hmap"
  shows "fst (identify_direct_outputs idxs hmap d) ! j =
     (if j \<in> set idxs \<and> (hmap ! j = dummy_to_local \<or> hmap ! j = dummy_to_remote)
      then NULL else hmap ! j)"
  using assms
proof (induction idxs arbitrary: hmap d)
  case Nil
  then show ?case by simp
next
  case (Cons i idxs)
  have i: "i \<notin> set idxs" and dist: "distinct idxs"
    using Cons.prems(1) by simp_all
  have upd: "(hmap[i := NULL]) ! j = (if i = j then NULL else hmap ! j)"
    using Cons.prems(2) by (simp add: nth_list_update)
  show ?case
  proof (cases "hmap ! i = dummy_to_local \<or> hmap ! i = dummy_to_remote")
    case True
    then show ?thesis
      using Cons.IH [OF dist, of "hmap[i := NULL]"] Cons.prems(2) i upd
      by (auto split: if_splits)
  next
    case False
    then show ?thesis
      using Cons.IH [OF dist, of hmap d] Cons.prems(2) i
      by auto
  qed
qed

lemma fst_identify_direct_outputs:
  "fst (identify_direct_outputs [0..<length hmap] hmap d) = clear_markers hmap"
  by (rule nth_equalityI) (simp_all add: nth_identify_direct_outputs clear_markers_def)

lemma identify_direct_outputs_local:
  assumes "distinct idxs"
  shows "direct_get (snd (identify_direct_outputs idxs hmap d)) LOCAL =
     (if \<exists>i \<in> set idxs. hmap ! i = dummy_to_local
      then Some (last (filter (\<lambda>i. hmap ! i = dummy_to_local) idxs))
      else direct_get d LOCAL)"
  using assms
proof (induction idxs arbitrary: hmap d)
  case Nil
  then show ?case by simp
next
  case (Cons i idxs)
  have i: "i \<notin> set idxs" and dist: "distinct idxs"
    using Cons.prems by simp_all
  have same: "(hmap[i := NULL]) ! k = hmap ! k" if "k \<in> set idxs" for k
  proof -
    have "i \<noteq> k" using that i by blast
    then show ?thesis by simp
  qed
  have filt: "filter (\<lambda>k. (hmap[i := NULL]) ! k = dummy_to_local) idxs
      = filter (\<lambda>k. hmap ! k = dummy_to_local) idxs"
    by (rule filter_cong) (simp_all add: same)
  have ex: "(\<exists>k \<in> set idxs. (hmap[i := NULL]) ! k = dummy_to_local)
      \<longleftrightarrow> (\<exists>k \<in> set idxs. hmap ! k = dummy_to_local)"
    using same by auto
  show ?case
    using Cons.IH [OF dist, of "hmap[i := NULL]"] Cons.IH [OF dist, of hmap]
    by (auto simp: filt ex filter_empty_conv)
qed

lemma identify_direct_outputs_remote:
  assumes "distinct idxs"
  shows "direct_get (snd (identify_direct_outputs idxs hmap d)) REMOTE =
     (if \<exists>i \<in> set idxs. hmap ! i = dummy_to_remote
      then Some (last (filter (\<lambda>i. hmap ! i = dummy_to_remote) idxs))
      else direct_get d REMOTE)"
  using assms
proof (induction idxs arbitrary: hmap d)
  case Nil
  then show ?case by simp
next
  case (Cons i idxs)
  have i: "i \<notin> set idxs" and dist: "distinct idxs"
    using Cons.prems by simp_all
  have same: "(hmap[i := NULL]) ! k = hmap ! k" if "k \<in> set idxs" for k
  proof -
    have "i \<noteq> k" using that i by blast
    then show ?thesis by simp
  qed
  have filt: "filter (\<lambda>k. (hmap[i := NULL]) ! k = dummy_to_remote) idxs
      = filter (\<lambda>k. hmap ! k = dummy_to_remote) idxs"
    by (rule filter_cong) (simp_all add: same)
  have ex: "(\<exists>k \<in> set idxs. (hmap[i := NULL]) ! k = dummy_to_remote)
      \<longleftrightarrow> (\<exists>k \<in> set idxs. hmap ! k = dummy_to_remote)"
    using same by auto
  show ?case
    using Cons.IH [OF dist, of "hmap[i := NULL]"] Cons.IH [OF dist, of hmap]
    by (auto simp: filt ex filter_empty_conv)
qed

lemma last_filter_in:
  assumes "\<exists>i \<in> set idxs. P i"
  shows "last (filter P idxs) \<in> set idxs \<and> P (last (filter P idxs))"
proof -
  have ne: "filter P idxs \<noteq> []"
    using assms by (simp add: filter_empty_conv)
  then have "last (filter P idxs) \<in> set (filter P idxs)"
    by (rule last_in_set)
  then show ?thesis by simp
qed

text \<open>What a slot of the scan says about the map it scanned.\<close>

lemma direct_get_None: "direct_get (None, None) sd = None"
  by (cases sd) simp_all

lemma direct_slot_local:
  assumes "direct_get (snd (identify_direct_outputs [0..<length hmap] hmap (None, None))) LOCAL
             = Some i"
  shows "i < length hmap \<and> hmap ! i = dummy_to_local"
proof (cases "\<exists>k \<in> set [0..<length hmap]. hmap ! k = dummy_to_local")
  case True
  from last_filter_in [OF True] assms True show ?thesis
    by (auto simp: identify_direct_outputs_local direct_get_None simp del: direct_get.simps)
next
  case False
  with assms show ?thesis
    by (auto simp: identify_direct_outputs_local direct_get_None simp del: direct_get.simps)
qed

lemma direct_slot_remote:
  assumes "direct_get (snd (identify_direct_outputs [0..<length hmap] hmap (None, None))) REMOTE
             = Some i"
  shows "i < length hmap \<and> hmap ! i = dummy_to_remote"
proof (cases "\<exists>k \<in> set [0..<length hmap]. hmap ! k = dummy_to_remote")
  case True
  from last_filter_in [OF True] assms True show ?thesis
    by (auto simp: identify_direct_outputs_remote direct_get_None simp del: direct_get.simps)
next
  case False
  with assms show ?thesis
    by (auto simp: identify_direct_outputs_remote direct_get_None simp del: direct_get.simps)
qed

lemma direct_slot_local_None:
  "direct_get (snd (identify_direct_outputs [0..<length hmap] hmap (None, None))) LOCAL = None
     \<longleftrightarrow> dummy_to_local \<notin> set hmap"
proof -
  have "(\<exists>k \<in> set [0..<length hmap]. hmap ! k = dummy_to_local)
          \<longleftrightarrow> dummy_to_local \<in> set hmap"
    by (auto simp: in_set_conv_nth)
  then show ?thesis
    by (auto simp: identify_direct_outputs_local direct_get_None simp del: direct_get.simps)
qed

lemma direct_slot_remote_None:
  "direct_get (snd (identify_direct_outputs [0..<length hmap] hmap (None, None))) REMOTE = None
     \<longleftrightarrow> dummy_to_remote \<notin> set hmap"
proof -
  have "(\<exists>k \<in> set [0..<length hmap]. hmap ! k = dummy_to_remote)
          \<longleftrightarrow> dummy_to_remote \<in> set hmap"
    by (auto simp: in_set_conv_nth)
  then show ?thesis
    by (auto simp: identify_direct_outputs_remote direct_get_None simp del: direct_get.simps)
qed

section \<open>Map entries and outputs, slot by slot\<close>

lemma built_entries_match:
  "list_all2
     (entry_matches C mem tsd ks fr dl self_pay other_pay htlcs sd
        (if direct then dummy_to_local else NULL) (if direct then dummy_to_remote else NULL))
     (built_htlcmap C mem fr dl self_pay other_pay htlcs direct sd)
     (built_outputs C mem tsd ks fr dl self_pay other_pay htlcs sd)"
  unfolding built_htlcmap_def built_outputs_def
  by (intro list_all2_appendI)
     (auto simp: list_all2_map2 list_all2_same entry_matches_def htlc_output_def
        untrimmed_offered_def untrimmed_received_def)

lemma list_all2_permuted:
  assumes "list_all2 R xs ys" and "set perm \<subseteq> {0..<length xs}"
  shows "list_all2 R (map (\<lambda>i. xs ! i) perm) (map (\<lambda>i. ys ! i) perm)"
proof -
  have "R (xs ! i) (ys ! i)" if "i \<in> set perm" for i
    using assms that by (auto simp: list_all2_conv_all_nth)
  then show ?thesis
    by (simp add: list_all2_map1 list_all2_map2 list_all2_same)
qed

lemma set_built_htlcmap:
  "set (built_htlcmap C mem fr dl self_pay other_pay htlcs direct sd)
     \<subseteq> set htlcs \<union> {if direct then dummy_to_local else NULL,
                       if direct then dummy_to_remote else NULL}"
  by (auto simp: built_htlcmap_def untrimmed_offered_def untrimmed_received_def)

lemma marker_local_in_built_htlcmap:
  assumes "dummy_to_local \<notin> set htlcs"
  shows "dummy_to_local \<in> set (built_htlcmap C mem fr dl self_pay other_pay htlcs True sd)
           \<longleftrightarrow> amount_msat_greater_eq_sat self_pay dl"
  using assms
  by (auto simp: built_htlcmap_def untrimmed_offered_def untrimmed_received_def)

lemma marker_remote_in_built_htlcmap:
  assumes "dummy_to_remote \<notin> set htlcs"
  shows "dummy_to_remote \<in> set (built_htlcmap C mem fr dl self_pay other_pay htlcs True sd)
           \<longleftrightarrow> amount_msat_greater_eq_sat other_pay dl"
  using assms
  by (auto simp: built_htlcmap_def untrimmed_offered_def untrimmed_received_def)

lemma set_map_nth_permutation:
  assumes "mset perm = mset [0..<length xs]"
  shows "set (map (\<lambda>i. xs ! i) perm) = set xs"
  using mset_map_nth_permutation [OF assms] by (metis set_mset_mset)

lemma set_clear_markers:
  "set (clear_markers xs)
     = (\<lambda>p. if p = dummy_to_local \<or> p = dummy_to_remote then NULL else p) ` set xs"
  by (simp add: clear_markers_def)

text \<open>The returned map and outputs as one permutation of what the steps built.\<close>

lemma commit_tx_Inr_permutation:
  fixes C U mem funding_txid funding_txout funding opener tsd ks fr dl self_pay other_pay
    htlcs direct n sd r
  defines "pays \<equiv> balances_after_fee C mem opener fr dl self_pay other_pay htlcs sd"
  defines "bo \<equiv> built_outputs C mem tsd ks fr dl (fst pays) (snd pays) htlcs sd"
  defines "bm \<equiv> built_htlcmap C mem fr dl (fst pays) (snd pays) htlcs direct sd"
  assumes ok: "commit_tx C U mem funding_txid funding_txout funding opener tsd ks fr dl
           self_pay other_pay htlcs direct n sd = Inr r"
  shows "\<exists>perm. mset perm = mset [0..<length bo]
     \<and> outputs (wtx (res_tx r)) = map (\<lambda>i. bo ! i) perm
     \<and> res_htlcmap r = (if direct then clear_markers (map (\<lambda>i. bm ! i) perm)
                         else map (\<lambda>i. bm ! i) perm)
     \<and> res_direct_outputs r = (if direct
          then Some (snd (identify_direct_outputs [0..<length bo]
                            (map (\<lambda>i. bm ! i) perm) (None, None)))
          else None)"
proof -
  let ?perm = "output_permutation bo (built_cltvs C U mem fr dl htlcs sd)"
  have len: "length (map (\<lambda>i. bm ! i) ?perm) = length bo"
    by simp
  have "fst (identify_direct_outputs [0..<length bo] (map (\<lambda>i. bm ! i) ?perm) (None, None))
      = clear_markers (map (\<lambda>i. bm ! i) ?perm)"
    using fst_identify_direct_outputs [of "map (\<lambda>i. bm ! i) ?perm" "(None, None)"]
    unfolding len .
  then show ?thesis
    using commit_tx_Inr(5) [OF ok] commit_tx_Inr(6) [OF ok] commit_tx_Inr(7) [OF ok]
    unfolding pays_def [symmetric] bo_def [symmetric] bm_def [symmetric]
    by (intro exI [of _ ?perm]) (simp add: mset_output_permutation)
qed

section \<open>The sorted outputs do not depend on the order of emission\<close>

lemma order_key_mono:
  fixes a a' :: nat and s s' :: bytes and c c' :: nat
  assumes "(a, s, c) \<le> (a', s', c')"
  shows "(a, s) \<le> (a', s')"
  using assms by (auto simp: less_eq_prod_def)

lemma output_key_inj:
  fixes x y :: wally_tx_output
  assumes "(satoshi x, script x) = (satoshi y, script y)"
  shows "x = y"
  using assms by (cases x, cases y) simp

lemma sorted_permuted_outputs:
  "sorted (map (\<lambda>out. (satoshi out, script out))
             (map (\<lambda>i. outs ! i) (output_permutation outs cl)))"
proof -
  have "sorted (map (output_order_key outs cl) (output_permutation outs cl))"
    unfolding output_permutation_def by (rule sorted_sort_key)
  then have "sorted_wrt (\<lambda>i j. output_order_key outs cl i \<le> output_order_key outs cl j)
               (output_permutation outs cl)"
    by (simp add: sorted_map)
  then have "sorted_wrt (\<lambda>i j. (satoshi (outs ! i), script (outs ! i))
                                  \<le> (satoshi (outs ! j), script (outs ! j)))
               (output_permutation outs cl)"
    by (rule sorted_wrt_mono_rel [rotated]) (auto simp: output_order_key_def dest: order_key_mono)
  then show ?thesis
    by (simp add: sorted_map comp_def)
qed

lemma permuted_outputs_eq_sort:
  "map (\<lambda>out. (satoshi out, script out)) (map (\<lambda>i. outs ! i) (output_permutation outs cl))
     = sort (map (\<lambda>out. (satoshi out, script out)) outs)"
proof (rule properties_for_sort [symmetric])
  show "mset (map (\<lambda>out. (satoshi out, script out))
                (map (\<lambda>i. outs ! i) (output_permutation outs cl)))
          = mset (map (\<lambda>out. (satoshi out, script out)) outs)"
    using mset_permuted_outputs [of outs cl] by (simp only: mset_map)
  show "sorted (map (\<lambda>out. (satoshi out, script out))
                  (map (\<lambda>i. outs ! i) (output_permutation outs cl)))"
    by (rule sorted_permuted_outputs)
qed

lemma permuted_outputs_unique:
  assumes "mset outs' = mset outs"
  shows "map (\<lambda>i. outs' ! i) (output_permutation outs' cl')
           = map (\<lambda>i. outs ! i) (output_permutation outs cl)"
proof -
  have "mset (map (\<lambda>out. (satoshi out, script out)) outs')
          = mset (map (\<lambda>out. (satoshi out, script out)) outs)"
    using assms by (simp only: mset_map)
  then have "sorted_list_of_multiset (mset (map (\<lambda>out. (satoshi out, script out)) outs'))
          = sorted_list_of_multiset (mset (map (\<lambda>out. (satoshi out, script out)) outs))"
    by (rule arg_cong)
  then have "sort (map (\<lambda>out. (satoshi out, script out)) outs')
          = sort (map (\<lambda>out. (satoshi out, script out)) outs)"
    by (simp only: sorted_list_of_multiset_mset)
  then have "map (\<lambda>out. (satoshi out, script out))
                 (map (\<lambda>i. outs' ! i) (output_permutation outs' cl'))
           = map (\<lambda>out. (satoshi out, script out))
                 (map (\<lambda>i. outs ! i) (output_permutation outs cl))"
    by (simp only: permuted_outputs_eq_sort)
  moreover have "inj (\<lambda>out :: wally_tx_output. (satoshi out, script out))"
    by (rule injI) (rule output_key_inj)
  ultimately show ?thesis
    by (simp only: inj_map_eq_map)
qed

section \<open>What depends on the HTLC list only as a multiset\<close>

lemma num_untrimmed_mset:
  assumes "mset htlcs' = mset htlcs"
  shows "commit_tx_num_untrimmed C mem htlcs' fr dl sd
           = commit_tx_num_untrimmed C mem htlcs fr dl sd"
proof -
  have "mset (filter (\<lambda>p. \<not> trim C (mem p) fr dl sd) htlcs')
          = mset (filter (\<lambda>p. \<not> trim C (mem p) fr dl sd) htlcs)"
    by (simp add: assms)
  then show ?thesis
    unfolding num_untrimmed_eq_filter by (rule mset_eq_length)
qed

lemma balances_after_fee_mset:
  assumes "mset htlcs' = mset htlcs"
  shows "balances_after_fee C mem opener fr dl self_pay other_pay htlcs' sd
           = balances_after_fee C mem opener fr dl self_pay other_pay htlcs sd"
  by (simp add: balances_after_fee_def num_untrimmed_mset [OF assms])

lemma built_outputs_mset:
  assumes "mset htlcs' = mset htlcs"
  shows "mset (built_outputs C mem tsd ks fr dl self_pay other_pay htlcs' sd)
           = mset (built_outputs C mem tsd ks fr dl self_pay other_pay htlcs sd)"
  by (simp add: built_outputs_def untrimmed_offered_def untrimmed_received_def assms)

lemma witscripts_determined:
  assumes inj: "inj (scriptpubkey_p2wsh C)"
    and disj: "scriptpubkey_p2wpkh C (other_payment_key ks) \<notin> range (scriptpubkey_p2wsh C)"
  shows "\<exists>g. \<forall>mem tsd fr dl self_pay other_pay htlcs sd.
           built_witscripts C mem tsd ks fr dl self_pay other_pay htlcs sd
             = map g (built_outputs C mem tsd ks fr dl self_pay other_pay htlcs sd)"
proof (intro exI allI)
  let ?g = "\<lambda>out. if script out = scriptpubkey_p2wpkh C (other_payment_key ks) then None
                  else Some (the_inv (scriptpubkey_p2wsh C) (script out))"
  fix mem tsd fr dl self_pay other_pay htlcs sd
  have ne: "scriptpubkey_p2wsh C w \<noteq> scriptpubkey_p2wpkh C (other_payment_key ks)" for w
  proof
    assume "scriptpubkey_p2wsh C w = scriptpubkey_p2wpkh C (other_payment_key ks)"
    then have "scriptpubkey_p2wpkh C (other_payment_key ks) \<in> range (scriptpubkey_p2wsh C)"
      by (simp add: image_iff) (rule exI [of _ w], simp)
    with disj show False by simp
  qed
  show "built_witscripts C mem tsd ks fr dl self_pay other_pay htlcs sd
          = map ?g (built_outputs C mem tsd ks fr dl self_pay other_pay htlcs sd)"
    by (simp add: built_witscripts_def built_outputs_def offered_htlc_output_def
        received_htlc_output_def to_local_output_def to_remote_output_def ne
        the_inv_f_f [OF inj])
qed

section \<open>More concrete calls, evaluated\<close>

lemmas ex_eval =
  ex_defs ex_mem2_def built_outputs_def built_htlcmap_def built_witscripts_def built_cltvs_def
  untrimmed_offered_def untrimmed_received_def offered_htlc_output_def
  received_htlc_output_def to_local_output_def to_remote_output_def offered_wscript_def
  received_wscript_def try_subtract_fee_def amount_msat_sub_sat_floor_def
  amount_msat_greater_eq_sat_def amount_msat_to_sat_round_down_def abs_locktime_to_blocks_def
  output_permutation_def output_order_key_def write_seg_def tal_arr_def upt_rec
  dummy_to_local_def dummy_to_remote_def NULL_def ex_words

lemma ex_call_trimmed:
  "commit_tx ex_collab ex_uninit ex_mem [0xAA] 0 100000 LOCAL 144 ex_keyset 253 546
     60000000 30900000 [16, 32, 48] False 0x123456789ABC LOCAL = Inr ex_result_trimmed"
  unfolding commit_tx_closed by (simp add: ex_eval ex_result_trimmed_def)

lemma ex_call_dust:
  "commit_tx ex_collab ex_uninit ex_mem [0xAA] 0 100000 LOCAL 144 ex_keyset 253 546
     200000 99800000 [] True 0x123456789ABC LOCAL = Inr ex_result_dust"
  unfolding commit_tx_closed by (simp add: ex_eval ex_result_dust_def)

lemma ex_call_offered:
  "commit_tx ex_collab ex_uninit ex_mem2 [0xAA] 0 100000 LOCAL 144 ex_keyset 253 546
     60000000 32000000 [16, 64] True 0x123456789ABC LOCAL = Inr ex_result_offered"
  unfolding commit_tx_closed by (simp add: ex_eval ex_result_offered_def)

lemma ex_call_offered_swapped:
  "commit_tx ex_collab ex_uninit ex_mem2 [0xAA] 0 100000 LOCAL 144 ex_keyset 253 546
     60000000 32000000 [64, 16] True 0x123456789ABC LOCAL = Inr ex_result_offered"
  unfolding commit_tx_closed by (simp add: ex_eval ex_result_offered_def)

lemma ex_call_empty:
  "commit_tx ex_collab ex_uninit ex_mem [0xAA] 0 100000 LOCAL 144 ex_keyset 253 546
     0 0 [] True 0x123456789ABC LOCAL = Inl Assert_n_positive"
  unfolding commit_tx_closed by (simp add: ex_eval)

section \<open>Validated inputs make the call succeed\<close>

lemma balances_after_fee_le:
  "fst (balances_after_fee C mem opener fr dl self_pay other_pay htlcs sd) \<le> self_pay"
  "snd (balances_after_fee C mem opener fr dl self_pay other_pay htlcs sd) \<le> other_pay"
  by (simp_all add: balances_after_fee_def try_subtract_fee_def amount_msat_sub_sat_floor_def)

lemma built_outputs_nonempty_iff:
  "built_outputs C mem tsd ks fr dl self_pay other_pay htlcs sd \<noteq> []
     \<longleftrightarrow> list_ex (\<lambda>p. \<not> trim C (mem p) fr dl sd) htlcs
         \<or> amount_msat_greater_eq_sat self_pay dl \<or> amount_msat_greater_eq_sat other_pay dl"
  by (auto simp: built_outputs_def untrimmed_offered_def untrimmed_received_def
      filter_empty_conv list_ex_iff)

lemma built_outputs_valid:
  assumes "list_all (\<lambda>p. amount (mem p) < 2 ^ 64) htlcs"
    and "self_pay < 2 ^ 64" and "other_pay < 2 ^ 64"
  shows "list_all (\<lambda>out. satoshi out < 2 ^ 64)
           (built_outputs C mem tsd ks fr dl self_pay other_pay htlcs sd)"
proof -
  have d: "x div 1000 < 2 ^ 64" if "x < 2 ^ 64" for x :: nat
    using that by (meson div_le_dividend le_less_trans)
  show ?thesis
    using assms
    by (auto simp: list_all_iff built_outputs_def untrimmed_offered_def untrimmed_received_def
        offered_htlc_output_def received_htlc_output_def to_local_output_def
        to_remote_output_def amount_msat_to_sat_round_down_def intro!: d)
qed

lemma validated_inputs_succeed:
  assumes "validated_inputs C mem funding opener fr dl self_pay other_pay htlcs sd"
  shows "\<exists>r. commit_tx C U mem funding_txid funding_txout funding opener tsd ks fr dl
           self_pay other_pay htlcs direct n sd = Inr r"
proof -
  let ?pays = "balances_after_fee C mem opener fr dl self_pay other_pay htlcs sd"
  have sum: "self_pay + other_pay < 2 ^ 64" and tot: "self_pay + other_pay \<le> funding * 1000"
    and amts: "list_all (\<lambda>p. amount (mem p) < 2 ^ 64) htlcs"
    and some: "list_ex (\<lambda>p. \<not> trim C (mem p) fr dl sd) htlcs
         \<or> amount_msat_greater_eq_sat (fst ?pays) dl
         \<or> amount_msat_greater_eq_sat (snd ?pays) dl"
    using assms by (simp_all add: validated_inputs_def)
  have "fst ?pays < 2 ^ 64" "snd ?pays < 2 ^ 64"
    using balances_after_fee_le [of C mem opener fr dl self_pay other_pay htlcs sd] sum
    by linarith+
  then have valid: "list_all (\<lambda>out. satoshi out < 2 ^ 64)
           (built_outputs C mem tsd ks fr dl (fst ?pays) (snd ?pays) htlcs sd)"
    by (rule built_outputs_valid [OF amts])
  have ne: "built_outputs C mem tsd ks fr dl (fst ?pays) (snd ?pays) htlcs sd \<noteq> []"
    using some by (simp only: built_outputs_nonempty_iff)
  from sum tot ne valid show ?thesis
    unfolding commit_tx_Inr_iff by (intro conjI)
qed

lemma ex_validated:
  "validated_inputs ex_collab ex_mem 100000 LOCAL 253 546 60000000 31000000 [16, 32] LOCAL"
  by (simp add: validated_inputs_def ex_pays amount_msat_greater_eq_sat_def) (simp add: ex_defs)

section \<open>Claims\<close>

text \<open>
  C6.  Fee allocation: \<open>try_subtract_fee\<close> takes the fee from \<open>self_pay\<close> when the
  opener is the rendering side and from \<open>other_pay\<close> otherwise; what is left of the
  funder's balance is the difference floored at zero, the other balance is returned
  unchanged, and the function always returns a pair of balances (it has no error result).
\<close>

theorem fee_allocation:
  assumes "try_subtract_fee opener sd base_fee self_pay other_pay = (self_pay', other_pay')"
  shows "(opener = sd \<longrightarrow>
            int self_pay' = max 0 (int self_pay - 1000 * int base_fee) \<and> other_pay' = other_pay)
       \<and> (opener \<noteq> sd \<longrightarrow>
            self_pay' = self_pay \<and> int other_pay' = max 0 (int other_pay - 1000 * int base_fee))"
  using assms
  by (auto simp: try_subtract_fee_def amount_msat_sub_sat_floor_def split: if_splits)

theorem fee_allocation_witness:
  "try_subtract_fee LOCAL LOCAL 270 200000 5000 = (0, 5000)
   \<and> try_subtract_fee REMOTE LOCAL 270 200000 500000 = (200000, 230000)"
proof -
  have a: "try_subtract_fee LOCAL LOCAL 270 200000 5000 = (0, 5000)"
    by (simp add: try_subtract_fee_def amount_msat_sub_sat_floor_def)
  have b: "try_subtract_fee REMOTE LOCAL 270 200000 500000 = (200000, 230000)"
    by (simp add: try_subtract_fee_def amount_msat_sub_sat_floor_def)
  from fee_allocation [OF a] fee_allocation [OF b] a b show ?thesis by simp
qed

text \<open>
  C9.  Output-count bound: the capacity assertion of \<open>commit_tx\<close> never fires, and in
  every transaction it returns the number of outputs is at most the allocation of
  untrimmed-HTLC count plus two, hence at most the HTLC count plus two.
\<close>

theorem output_count_bound:
  "commit_tx C U mem funding_txid funding_txout funding opener tsd ks fr dl
       self_pay other_pay htlcs direct n sd \<noteq> Inl Assert_n_within_allocation
   \<and> (\<forall>r. commit_tx C U mem funding_txid funding_txout funding opener tsd ks fr dl
            self_pay other_pay htlcs direct n sd = Inr r \<longrightarrow>
          length (outputs (wtx (res_tx r))) \<le> outputs_allocation_len (wtx (res_tx r))
        \<and> outputs_allocation_len (wtx (res_tx r))
            = commit_tx_num_untrimmed C mem htlcs fr dl sd + 2
        \<and> length (outputs (wtx (res_tx r))) \<le> length htlcs + 2)"
proof (intro conjI allI impI)
  show "commit_tx C U mem funding_txid funding_txout funding opener tsd ks fr dl
       self_pay other_pay htlcs direct n sd \<noteq> Inl Assert_n_within_allocation"
    unfolding commit_tx_closed by simp
next
  fix r
  assume ok: "commit_tx C U mem funding_txid funding_txout funding opener tsd ks fr dl
            self_pay other_pay htlcs direct n sd = Inr r"
  note tx = commit_tx_Inr(5) [OF ok]
  have le: "commit_tx_num_untrimmed C mem htlcs fr dl sd \<le> length htlcs"
    by (simp add: num_untrimmed_eq_filter)
  show "length (outputs (wtx (res_tx r))) \<le> outputs_allocation_len (wtx (res_tx r))"
    using length_built_outputs_le by (simp add: tx)
  show "outputs_allocation_len (wtx (res_tx r))
            = commit_tx_num_untrimmed C mem htlcs fr dl sd + 2"
    by (simp add: tx)
  show "length (outputs (wtx (res_tx r))) \<le> length htlcs + 2"
    using length_built_outputs_le [of C mem tsd ks fr dl
        "fst (balances_after_fee C mem opener fr dl self_pay other_pay htlcs sd)"
        "snd (balances_after_fee C mem opener fr dl self_pay other_pay htlcs sd)" htlcs sd] le
    by (simp add: tx)
qed

theorem output_count_bound_witness:
  "length (outputs (wtx (res_tx ex_result))) \<le> outputs_allocation_len (wtx (res_tx ex_result))
   \<and> outputs_allocation_len (wtx (res_tx ex_result)) = 4
   \<and> length (outputs (wtx (res_tx ex_result))) \<le> length [16 :: addr, 32] + 2"
proof -
  have "commit_tx_num_untrimmed ex_collab ex_mem [16, 32] 253 546 LOCAL = 2"
    by (rule ex_u)
  then show ?thesis
    using output_count_bound [of ex_collab ex_uninit ex_mem "[0xAA]" 0 100000 LOCAL 144
        ex_keyset 253 546 60000000 31000000 "[16, 32]" True "0x123456789ABC" LOCAL] ex_call
    by simp
qed

text \<open>
  C4.  HTLC-map co-indexing: in every successful call the returned map is as long as the
  transaction's output list, and map and outputs are the same permutation of the map and
  the outputs the emission steps built (with the two markers cleared when direct outputs
  were requested).  So, for HTLC pointers that are none of NULL, \<open>0x01\<close>, \<open>0x02\<close>, every
  non-NULL entry at index \<open>i\<close> is an untrimmed HTLC of the input and output \<open>i\<close> is the
  output built from it, and every NULL entry sits at the \<open>to_local\<close> or the \<open>to_remote\<close>
  output.
\<close>

theorem htlcmap_co_indexed:
  fixes C U mem funding_txid funding_txout funding opener tsd ks fr dl self_pay other_pay
    htlcs direct n sd r
  defines "pays \<equiv> balances_after_fee C mem opener fr dl self_pay other_pay htlcs sd"
  defines "bo \<equiv> built_outputs C mem tsd ks fr dl (fst pays) (snd pays) htlcs sd"
  defines "bm \<equiv> built_htlcmap C mem fr dl (fst pays) (snd pays) htlcs direct sd"
  assumes ok: "commit_tx C U mem funding_txid funding_txout funding opener tsd ks fr dl
           self_pay other_pay htlcs direct n sd = Inr r"
  shows "length (res_htlcmap r) = length (outputs (wtx (res_tx r)))
     \<and> (\<exists>perm. mset perm = mset [0..<length bo]
           \<and> outputs (wtx (res_tx r)) = map (\<lambda>i. bo ! i) perm
           \<and> res_htlcmap r = (if direct then clear_markers (map (\<lambda>i. bm ! i) perm)
                               else map (\<lambda>i. bm ! i) perm))
     \<and> (NULL \<notin> set htlcs \<and> dummy_to_local \<notin> set htlcs \<and> dummy_to_remote \<notin> set htlcs \<longrightarrow>
          (\<forall>i < length (res_htlcmap r).
             (res_htlcmap r ! i \<noteq> NULL \<longrightarrow>
                res_htlcmap r ! i \<in> set htlcs
                \<and> \<not> trim C (mem (res_htlcmap r ! i)) fr dl sd
                \<and> outputs (wtx (res_tx r)) ! i = htlc_output C ks sd (mem (res_htlcmap r ! i)))
           \<and> (res_htlcmap r ! i = NULL \<longrightarrow>
                outputs (wtx (res_tx r)) ! i = to_local_output C tsd ks (fst pays)
                \<or> outputs (wtx (res_tx r)) ! i = to_remote_output C ks (snd pays))))"
proof -
  obtain perm where perm: "mset perm = mset [0..<length bo]"
    and outs: "outputs (wtx (res_tx r)) = map (\<lambda>i. bo ! i) perm"
    and hmap: "res_htlcmap r = (if direct then clear_markers (map (\<lambda>i. bm ! i) perm)
                               else map (\<lambda>i. bm ! i) perm)"
    using commit_tx_Inr_permutation [OF ok]
    unfolding pays_def [symmetric] bo_def [symmetric] bm_def [symmetric] by blast
  have lbm: "length bm = length bo"
    unfolding bm_def bo_def by (rule length_built_htlcmap)
  have sub: "set perm \<subseteq> {0..<length bm}"
    using perm lbm by (metis set_mset_mset set_upt subset_refl)
  have len: "length (res_htlcmap r) = length (outputs (wtx (res_tx r)))"
    by (simp add: outs hmap clear_markers_def)
  have rel: "list_all2
     (entry_matches C mem tsd ks fr dl (fst pays) (snd pays) htlcs sd
        (if direct then dummy_to_local else NULL) (if direct then dummy_to_remote else NULL))
     (map (\<lambda>i. bm ! i) perm) (map (\<lambda>i. bo ! i) perm)"
    unfolding bm_def bo_def
    by (rule list_all2_permuted [OF built_entries_match sub [unfolded bm_def]])
  have idx: "(res_htlcmap r ! i \<noteq> NULL \<longrightarrow>
                res_htlcmap r ! i \<in> set htlcs
                \<and> \<not> trim C (mem (res_htlcmap r ! i)) fr dl sd
                \<and> outputs (wtx (res_tx r)) ! i = htlc_output C ks sd (mem (res_htlcmap r ! i)))
           \<and> (res_htlcmap r ! i = NULL \<longrightarrow>
                outputs (wtx (res_tx r)) ! i = to_local_output C tsd ks (fst pays)
                \<or> outputs (wtx (res_tx r)) ! i = to_remote_output C ks (snd pays))"
    if valid: "NULL \<notin> set htlcs" "dummy_to_local \<notin> set htlcs" "dummy_to_remote \<notin> set htlcs"
      and i: "i < length (res_htlcmap r)" for i
  proof -
    have ip: "i < length perm"
      using i by (simp add: hmap clear_markers_def split: if_splits)
    have em: "entry_matches C mem tsd ks fr dl (fst pays) (snd pays) htlcs sd
        (if direct then dummy_to_local else NULL) (if direct then dummy_to_remote else NULL)
        (bm ! (perm ! i)) (bo ! (perm ! i))"
      using list_all2_nthD [OF rel, of i] ip by simp
    have fin: "res_htlcmap r ! i =
        (if direct \<and> (bm ! (perm ! i) = dummy_to_local \<or> bm ! (perm ! i) = dummy_to_remote)
         then NULL else bm ! (perm ! i))"
      using ip by (simp add: hmap clear_markers_def)
    have out: "outputs (wtx (res_tx r)) ! i = bo ! (perm ! i)"
      using ip by (simp add: outs)
    show ?thesis
      using em valid unfolding fin out entry_matches_def
      by (cases direct) auto
  qed
  from len perm outs hmap idx show ?thesis by blast
qed

theorem htlcmap_co_indexed_witness:
  "NULL \<notin> set [16, 32 :: addr] \<and> dummy_to_local \<notin> set [16, 32 :: addr]
   \<and> dummy_to_remote \<notin> set [16, 32 :: addr]
   \<and> length (res_htlcmap ex_result) = length (outputs (wtx (res_tx ex_result)))
   \<and> res_htlcmap ex_result = [32, 16, NULL, NULL]
   \<and> outputs (wtx (res_tx ex_result)) ! 0 = htlc_output ex_collab ex_keyset LOCAL (ex_mem 32)
   \<and> outputs (wtx (res_tx ex_result)) ! 1 = htlc_output ex_collab ex_keyset LOCAL (ex_mem 16)
   \<and> outputs (wtx (res_tx ex_result)) ! 2 = to_remote_output ex_collab ex_keyset 31000000
   \<and> outputs (wtx (res_tx ex_result)) ! 3 = to_local_output ex_collab 144 ex_keyset 59730000"
proof -
  have v: "NULL \<notin> set [16, 32 :: addr]" "dummy_to_local \<notin> set [16, 32 :: addr]"
      "dummy_to_remote \<notin> set [16, 32 :: addr]"
    by (simp_all add: NULL_def dummy_to_local_def dummy_to_remote_def)
  have m: "res_htlcmap ex_result = [32, 16, NULL, NULL]"
    by (simp add: ex_result_def NULL_def)
  have o: "outputs (wtx (res_tx ex_result)) ! 0 = htlc_output ex_collab ex_keyset LOCAL (ex_mem 32)"
    "outputs (wtx (res_tx ex_result)) ! 1 = htlc_output ex_collab ex_keyset LOCAL (ex_mem 16)"
    "outputs (wtx (res_tx ex_result)) ! 2 = to_remote_output ex_collab ex_keyset 31000000"
    "outputs (wtx (res_tx ex_result)) ! 3 = to_local_output ex_collab 144 ex_keyset 59730000"
    by (simp_all add: ex_result_def htlc_output_def offered_htlc_output_def
        received_htlc_output_def to_remote_output_def to_local_output_def ex_defs
        offered_wscript_def received_wscript_def amount_msat_to_sat_round_down_def)
  from htlcmap_co_indexed [OF ex_call] v m o show ?thesis
    by simp
qed

text \<open>
  C10.  Sentinel containment: every entry of the returned map is NULL or one of the HTLC
  pointers of the input.  When direct outputs were requested the returned map holds
  neither sentinel, whatever the input; when they were not, no sentinel is ever written,
  so the map holds a sentinel value only if the caller passed it in as an HTLC pointer.
\<close>

theorem sentinel_containment:
  assumes ok: "commit_tx C U mem funding_txid funding_txout funding opener tsd ks fr dl
           self_pay other_pay htlcs direct n sd = Inr r"
  shows "set (res_htlcmap r) \<subseteq> insert NULL (set htlcs)
     \<and> (direct \<longrightarrow> dummy_to_local \<notin> set (res_htlcmap r)
                  \<and> dummy_to_remote \<notin> set (res_htlcmap r))
     \<and> (dummy_to_local \<notin> set htlcs \<longrightarrow> dummy_to_local \<notin> set (res_htlcmap r))
     \<and> (dummy_to_remote \<notin> set htlcs \<longrightarrow> dummy_to_remote \<notin> set (res_htlcmap r))"
proof -
  let ?pays = "balances_after_fee C mem opener fr dl self_pay other_pay htlcs sd"
  let ?bo = "built_outputs C mem tsd ks fr dl (fst ?pays) (snd ?pays) htlcs sd"
  let ?bm = "built_htlcmap C mem fr dl (fst ?pays) (snd ?pays) htlcs direct sd"
  obtain perm where perm: "mset perm = mset [0..<length ?bo]"
    and hmap: "res_htlcmap r = (if direct then clear_markers (map (\<lambda>i. ?bm ! i) perm)
                               else map (\<lambda>i. ?bm ! i) perm)"
    using commit_tx_Inr_permutation [OF ok] by blast
  have "mset perm = mset [0..<length ?bm]"
    using perm by (simp add: length_built_htlcmap [of C mem fr dl _ _ htlcs direct sd tsd ks])
  then have s: "set (map (\<lambda>i. ?bm ! i) perm) = set ?bm"
    by (rule set_map_nth_permutation)
  have sub: "set ?bm \<subseteq> set htlcs \<union> {if direct then dummy_to_local else NULL,
                       if direct then dummy_to_remote else NULL}"
    by (rule set_built_htlcmap)
  show ?thesis
  proof (cases direct)
    case True
    have "res_htlcmap r = clear_markers (map (\<lambda>i. ?bm ! i) perm)"
      using True by (simp add: hmap)
    then have "set (res_htlcmap r)
        = (\<lambda>p. if p = dummy_to_local \<or> p = dummy_to_remote then NULL else p)
            ` set (map (\<lambda>i. ?bm ! i) perm)"
      by (simp only: set_clear_markers)
    then have "set (res_htlcmap r)
        = (\<lambda>p. if p = dummy_to_local \<or> p = dummy_to_remote then NULL else p) ` set ?bm"
      by (simp only: s)
    with sub True show ?thesis by auto
  next
    case False
    have "res_htlcmap r = map (\<lambda>i. ?bm ! i) perm"
      using False by (simp add: hmap)
    then have "set (res_htlcmap r) = set ?bm"
      by (simp only: s)
    with sub False show ?thesis by auto
  qed
qed

theorem sentinel_containment_witness:
  "set (res_htlcmap ex_result) \<subseteq> insert NULL (set [16, 32])
   \<and> dummy_to_local \<notin> set (res_htlcmap ex_result)
   \<and> dummy_to_remote \<notin> set (res_htlcmap ex_result)"
proof -
  have v: "dummy_to_local \<notin> set [16, 32 :: addr]" "dummy_to_remote \<notin> set [16, 32 :: addr]"
    by (simp_all add: dummy_to_local_def dummy_to_remote_def)
  from sentinel_containment [OF ex_call] v show ?thesis
    by simp
qed

text \<open>
  C2.  Transaction assembly: on validated inputs \<open>commit_tx\<close> returns a transaction, and
  every transaction it returns has version 2 and exactly one input, which references the
  funding outpoint; its locktime is \<open>0x20000000 | (N & 0xFFFFFF)\<close> and the sequence of its
  input is \<open>0x80000000 | ((N >> 24) & 0xFFFFFF)\<close>, both without loss in the 32-bit
  fields; and for \<open>N < 2^48\<close>, \<open>(locktime & 0xFFFFFF) | ((sequence & 0xFFFFFF) << 24)\<close>
  computed in 64 bits is \<open>N\<close>.
\<close>

theorem obscured_commitment_number_encoding:
  "(validated_inputs C mem funding opener fr dl self_pay other_pay htlcs sd \<longrightarrow>
      (\<exists>r. commit_tx C U mem funding_txid funding_txout funding opener tsd ks fr dl
            self_pay other_pay htlcs direct n sd = Inr r))
   \<and> (\<forall>r. commit_tx C U mem funding_txid funding_txout funding opener tsd ks fr dl
            self_pay other_pay htlcs direct n sd = Inr r \<longrightarrow>
         version (wtx (res_tx r)) = 2
       \<and> (\<exists>sequ. inputs (wtx (res_tx r))
              = [\<lparr>txhash = funding_txid, txout_index = funding_txout, sequence = sequ\<rparr>]
            \<and> (ucast sequ :: u64) = 0x80000000 OR (drop_bit 24 n AND 0xFFFFFF)
            \<and> (ucast (locktime (wtx (res_tx r))) :: u64) = 0x20000000 OR (n AND 0xFFFFFF)
            \<and> (n < 2 ^ 48 \<longrightarrow>
                 ucast (locktime (wtx (res_tx r)) AND 0xFFFFFF)
                   OR push_bit 24 (ucast (sequ AND 0xFFFFFF)) = n)))"
proof (intro conjI impI allI)
  assume "validated_inputs C mem funding opener fr dl self_pay other_pay htlcs sd"
  then show "\<exists>r. commit_tx C U mem funding_txid funding_txout funding opener tsd ks fr dl
            self_pay other_pay htlcs direct n sd = Inr r"
    by (rule validated_inputs_succeed)
next
  fix r
  assume ok: "commit_tx C U mem funding_txid funding_txout funding opener tsd ks fr dl
            self_pay other_pay htlcs direct n sd = Inr r"
  show "version (wtx (res_tx r)) = 2"
    by (simp add: commit_tx_Inr(5) [OF ok])
  show "\<exists>sequ. inputs (wtx (res_tx r))
              = [\<lparr>txhash = funding_txid, txout_index = funding_txout, sequence = sequ\<rparr>]
            \<and> (ucast sequ :: u64) = 0x80000000 OR (drop_bit 24 n AND 0xFFFFFF)
            \<and> (ucast (locktime (wtx (res_tx r))) :: u64) = 0x20000000 OR (n AND 0xFFFFFF)
            \<and> (n < 2 ^ 48 \<longrightarrow>
                 ucast (locktime (wtx (res_tx r)) AND 0xFFFFFF)
                   OR push_bit 24 (ucast (sequ AND 0xFFFFFF)) = n)"
    using obscured_number_roundtrip [of n]
    by (simp add: commit_tx_Inr(5) [OF ok] locktime_fits sequence_fits)
qed

theorem obscured_commitment_number_encoding_witness:
  "validated_inputs ex_collab ex_mem 100000 LOCAL 253 546 60000000 31000000 [16, 32] LOCAL
   \<and> commit_tx ex_collab ex_uninit ex_mem [0xAA] 0 100000 LOCAL 144 ex_keyset 253 546
        60000000 31000000 [16, 32] True 0x123456789ABC LOCAL = Inr ex_result
   \<and> (0x123456789ABC :: u64) < 2 ^ 48
   \<and> version (wtx (res_tx ex_result)) = 2
   \<and> inputs (wtx (res_tx ex_result))
        = [\<lparr>txhash = [0xAA], txout_index = 0, sequence = 0x80123456\<rparr>]
   \<and> locktime (wtx (res_tx ex_result)) = 0x20789ABC
   \<and> (ucast (locktime (wtx (res_tx ex_result)) AND 0xFFFFFF) :: u64)
        OR push_bit 24 (ucast (sequence (hd (inputs (wtx (res_tx ex_result)))) AND 0xFFFFFF))
      = 0x123456789ABC"
proof -
  have lt: "(0x123456789ABC :: u64) < 2 ^ 48" by simp
  have f: "inputs (wtx (res_tx ex_result))
        = [\<lparr>txhash = [0xAA], txout_index = 0, sequence = 0x80123456\<rparr>]"
       "locktime (wtx (res_tx ex_result)) = 0x20789ABC"
    by (simp_all add: ex_result_def)
  from obscured_commitment_number_encoding [of ex_collab ex_mem 100000 LOCAL 253 546 60000000
      31000000 "[16, 32]" LOCAL ex_uninit "[0xAA]" 0 144 ex_keyset True "0x123456789ABC"]
    ex_validated ex_call lt f
  show ?thesis by auto
qed

lemma dust_omission_of_result:
  fixes C U mem funding_txid funding_txout funding opener tsd ks fr dl self_pay other_pay
    htlcs direct n sd r
  defines "pays \<equiv> balances_after_fee C mem opener fr dl self_pay other_pay htlcs sd"
  defines "outs \<equiv> outputs (wtx (res_tx r))"
  assumes ok: "commit_tx C U mem funding_txid funding_txout funding opener tsd ks fr dl
           self_pay other_pay htlcs direct n sd = Inr r"
  shows "length outs = commit_tx_num_untrimmed C mem htlcs fr dl sd
           + (if amount_msat_greater_eq_sat (fst pays) dl then 1 else 0)
           + (if amount_msat_greater_eq_sat (snd pays) dl then 1 else 0)
     \<and> (amount_msat_greater_eq_sat (fst pays) dl \<longrightarrow>
           to_local_output C tsd ks (fst pays) \<in> set outs)
     \<and> (amount_msat_greater_eq_sat (snd pays) dl \<longrightarrow>
           to_remote_output C ks (snd pays) \<in> set outs)
     \<and> (\<not> direct \<longrightarrow> res_direct_outputs r = None)
     \<and> (direct \<and> dummy_to_local \<notin> set htlcs \<and> dummy_to_remote \<notin> set htlcs \<longrightarrow>
          (\<exists>d. res_direct_outputs r = Some d
             \<and> (direct_get d LOCAL \<noteq> None \<longleftrightarrow> amount_msat_greater_eq_sat (fst pays) dl)
             \<and> (direct_get d REMOTE \<noteq> None \<longleftrightarrow> amount_msat_greater_eq_sat (snd pays) dl)
             \<and> (\<forall>i. direct_get d LOCAL = Some i \<longrightarrow>
                    i < length outs \<and> outs ! i = to_local_output C tsd ks (fst pays))
             \<and> (\<forall>i. direct_get d REMOTE = Some i \<longrightarrow>
                    i < length outs \<and> outs ! i = to_remote_output C ks (snd pays))))"
proof -
  let ?bo = "built_outputs C mem tsd ks fr dl (fst pays) (snd pays) htlcs sd"
  let ?bm = "built_htlcmap C mem fr dl (fst pays) (snd pays) htlcs direct sd"
  obtain perm where perm: "mset perm = mset [0..<length ?bo]"
    and outs: "outs = map (\<lambda>i. ?bo ! i) perm"
    and dir: "res_direct_outputs r = (if direct
          then Some (snd (identify_direct_outputs [0..<length ?bo]
                            (map (\<lambda>i. ?bm ! i) perm) (None, None)))
          else None)"
    using commit_tx_Inr_permutation [OF ok]
    unfolding pays_def [symmetric] outs_def [symmetric] by blast
  have lperm: "length perm = length ?bo"
    using perm by (metis length_upt minus_nat.diff_0 size_mset)
  have lbm: "length ?bm = length ?bo"
    by (rule length_built_htlcmap)
  have count: "length outs = commit_tx_num_untrimmed C mem htlcs fr dl sd
           + (if amount_msat_greater_eq_sat (fst pays) dl then 1 else 0)
           + (if amount_msat_greater_eq_sat (snd pays) dl then 1 else 0)"
    by (simp add: outs lperm) (simp add: built_outputs_def num_untrimmed_split)
  have souts: "set outs = set ?bo"
    unfolding outs by (rule set_map_nth_permutation [OF perm])
  have tl: "to_local_output C tsd ks (fst pays) \<in> set outs"
    if "amount_msat_greater_eq_sat (fst pays) dl"
    using that by (simp add: souts built_outputs_def)
  have tr: "to_remote_output C ks (snd pays) \<in> set outs"
    if "amount_msat_greater_eq_sat (snd pays) dl"
    using that by (simp add: souts built_outputs_def)
  have nd: "res_direct_outputs r = None" if "\<not> direct"
    using that by (simp add: dir)
  have slots: "\<exists>d. res_direct_outputs r = Some d
             \<and> (direct_get d LOCAL \<noteq> None \<longleftrightarrow> amount_msat_greater_eq_sat (fst pays) dl)
             \<and> (direct_get d REMOTE \<noteq> None \<longleftrightarrow> amount_msat_greater_eq_sat (snd pays) dl)
             \<and> (\<forall>i. direct_get d LOCAL = Some i \<longrightarrow>
                    i < length outs \<and> outs ! i = to_local_output C tsd ks (fst pays))
             \<and> (\<forall>i. direct_get d REMOTE = Some i \<longrightarrow>
                    i < length outs \<and> outs ! i = to_remote_output C ks (snd pays))"
    if d: direct and vl: "dummy_to_local \<notin> set htlcs" and vr: "dummy_to_remote \<notin> set htlcs"
  proof -
    let ?hm = "map (\<lambda>i. ?bm ! i) perm"
    let ?d = "snd (identify_direct_outputs [0..<length ?hm] ?hm (None, None))"
    have lhm: "length ?hm = length ?bo"
      by (simp add: lperm)
    have res: "res_direct_outputs r = Some ?d"
      using d by (simp add: dir lperm)
    have pbm: "mset perm = mset [0..<length ?bm]"
      using perm lbm by simp
    have shm: "set ?hm = set ?bm"
      by (rule set_map_nth_permutation [OF pbm])
    have sub: "set perm \<subseteq> {0..<length ?bm}"
      using pbm by (metis set_mset_mset set_upt subset_refl)
    have rel: "list_all2
       (entry_matches C mem tsd ks fr dl (fst pays) (snd pays) htlcs sd
          dummy_to_local dummy_to_remote) ?hm (map (\<lambda>i. ?bo ! i) perm)"
      using list_all2_permuted [OF built_entries_match sub] d by simp
    have mkl: "dummy_to_local \<in> set ?bm \<longleftrightarrow> amount_msat_greater_eq_sat (fst pays) dl"
      using marker_local_in_built_htlcmap [OF vl, of C mem fr dl "fst pays" "snd pays" sd] d
      by simp
    have mkr: "dummy_to_remote \<in> set ?bm \<longleftrightarrow> amount_msat_greater_eq_sat (snd pays) dl"
      using marker_remote_in_built_htlcmap [OF vr, of C mem fr dl "fst pays" "snd pays" sd] d
      by simp
    have l0: "direct_get ?d LOCAL = None \<longleftrightarrow> dummy_to_local \<notin> set ?hm"
      by (rule direct_slot_local_None)
    have r0: "direct_get ?d REMOTE = None \<longleftrightarrow> dummy_to_remote \<notin> set ?hm"
      by (rule direct_slot_remote_None)
    have l1: "direct_get ?d LOCAL \<noteq> None \<longleftrightarrow> amount_msat_greater_eq_sat (fst pays) dl"
      using l0 mkl unfolding shm by argo
    have r1: "direct_get ?d REMOTE \<noteq> None \<longleftrightarrow> amount_msat_greater_eq_sat (snd pays) dl"
      using r0 mkr unfolding shm by argo
    have l2: "i < length outs \<and> outs ! i = to_local_output C tsd ks (fst pays)"
      if "direct_get ?d LOCAL = Some i" for i
    proof -
      from direct_slot_local [OF that]
      have i: "i < length ?hm" and m: "?hm ! i = dummy_to_local" by simp_all
      from list_all2_nthD [OF rel i] m vl
      have "outs ! i = to_local_output C tsd ks (fst pays)"
        using i by (auto simp: entry_matches_def outs)
      with i show ?thesis by (simp add: outs)
    qed
    have r2: "i < length outs \<and> outs ! i = to_remote_output C ks (snd pays)"
      if "direct_get ?d REMOTE = Some i" for i
    proof -
      from direct_slot_remote [OF that]
      have i: "i < length ?hm" and m: "?hm ! i = dummy_to_remote" by simp_all
      from list_all2_nthD [OF rel i] m vr
      have "outs ! i = to_remote_output C ks (snd pays)"
        using i by (auto simp: entry_matches_def outs)
      with i show ?thesis by (simp add: outs)
    qed
    from res l1 r1 l2 r2 show ?thesis by blast
  qed
  from count tl tr nd slots show ?thesis by blast
qed

text \<open>
  C5.  Dust omission of the balance outputs: on validated inputs \<open>commit_tx\<close> returns a
  transaction, and every transaction it returns has one output per untrimmed HTLC, plus
  a \<open>to_local\<close> output exactly when \<open>self_pay\<close> after the fee is at least the dust limit,
  plus a \<open>to_remote\<close> output exactly when \<open>other_pay\<close> after the fee is.  When direct
  outputs are requested (and no HTLC pointer is \<open>0x01\<close> or \<open>0x02\<close>), the slot of a side is
  non-NULL exactly when its balance output was emitted, and then it points at that output;
  a slot whose output was not emitted is NULL.
\<close>

theorem dust_omission:
  fixes C U mem funding_txid funding_txout funding opener tsd ks fr dl self_pay other_pay
    htlcs direct n sd
  defines "pays \<equiv> balances_after_fee C mem opener fr dl self_pay other_pay htlcs sd"
  shows
  "(validated_inputs C mem funding opener fr dl self_pay other_pay htlcs sd \<longrightarrow>
      (\<exists>r. commit_tx C U mem funding_txid funding_txout funding opener tsd ks fr dl
            self_pay other_pay htlcs direct n sd = Inr r))
   \<and> (\<forall>r. commit_tx C U mem funding_txid funding_txout funding opener tsd ks fr dl
            self_pay other_pay htlcs direct n sd = Inr r \<longrightarrow>
         length (outputs (wtx (res_tx r))) = commit_tx_num_untrimmed C mem htlcs fr dl sd
             + (if amount_msat_greater_eq_sat (fst pays) dl then 1 else 0)
             + (if amount_msat_greater_eq_sat (snd pays) dl then 1 else 0)
       \<and> (amount_msat_greater_eq_sat (fst pays) dl \<longrightarrow>
             to_local_output C tsd ks (fst pays) \<in> set (outputs (wtx (res_tx r))))
       \<and> (amount_msat_greater_eq_sat (snd pays) dl \<longrightarrow>
             to_remote_output C ks (snd pays) \<in> set (outputs (wtx (res_tx r))))
       \<and> (\<not> direct \<longrightarrow> res_direct_outputs r = None)
       \<and> (direct \<and> dummy_to_local \<notin> set htlcs \<and> dummy_to_remote \<notin> set htlcs \<longrightarrow>
            (\<exists>d. res_direct_outputs r = Some d
               \<and> (direct_get d LOCAL \<noteq> None \<longleftrightarrow> amount_msat_greater_eq_sat (fst pays) dl)
               \<and> (direct_get d REMOTE \<noteq> None \<longleftrightarrow> amount_msat_greater_eq_sat (snd pays) dl)
               \<and> (\<forall>i. direct_get d LOCAL = Some i \<longrightarrow>
                      i < length (outputs (wtx (res_tx r)))
                      \<and> outputs (wtx (res_tx r)) ! i = to_local_output C tsd ks (fst pays))
               \<and> (\<forall>i. direct_get d REMOTE = Some i \<longrightarrow>
                      i < length (outputs (wtx (res_tx r)))
                      \<and> outputs (wtx (res_tx r)) ! i = to_remote_output C ks (snd pays)))))"
proof (rule conjI)
  show "validated_inputs C mem funding opener fr dl self_pay other_pay htlcs sd \<longrightarrow>
      (\<exists>r. commit_tx C U mem funding_txid funding_txout funding opener tsd ks fr dl
            self_pay other_pay htlcs direct n sd = Inr r)"
    by (rule impI) (rule validated_inputs_succeed)
next
  have "length (outputs (wtx (res_tx r))) = commit_tx_num_untrimmed C mem htlcs fr dl sd
             + (if amount_msat_greater_eq_sat (fst pays) dl then 1 else 0)
             + (if amount_msat_greater_eq_sat (snd pays) dl then 1 else 0)
       \<and> (amount_msat_greater_eq_sat (fst pays) dl \<longrightarrow>
             to_local_output C tsd ks (fst pays) \<in> set (outputs (wtx (res_tx r))))
       \<and> (amount_msat_greater_eq_sat (snd pays) dl \<longrightarrow>
             to_remote_output C ks (snd pays) \<in> set (outputs (wtx (res_tx r))))
       \<and> (\<not> direct \<longrightarrow> res_direct_outputs r = None)
       \<and> (direct \<and> dummy_to_local \<notin> set htlcs \<and> dummy_to_remote \<notin> set htlcs \<longrightarrow>
            (\<exists>d. res_direct_outputs r = Some d
               \<and> (direct_get d LOCAL \<noteq> None \<longleftrightarrow> amount_msat_greater_eq_sat (fst pays) dl)
               \<and> (direct_get d REMOTE \<noteq> None \<longleftrightarrow> amount_msat_greater_eq_sat (snd pays) dl)
               \<and> (\<forall>i. direct_get d LOCAL = Some i \<longrightarrow>
                      i < length (outputs (wtx (res_tx r)))
                      \<and> outputs (wtx (res_tx r)) ! i = to_local_output C tsd ks (fst pays))
               \<and> (\<forall>i. direct_get d REMOTE = Some i \<longrightarrow>
                      i < length (outputs (wtx (res_tx r)))
                      \<and> outputs (wtx (res_tx r)) ! i = to_remote_output C ks (snd pays))))"
    if ok: "commit_tx C U mem funding_txid funding_txout funding opener tsd ks fr dl
            self_pay other_pay htlcs direct n sd = Inr r" for r
    unfolding pays_def by (rule dust_omission_of_result [OF ok])
  then show "\<forall>r. commit_tx C U mem funding_txid funding_txout funding opener tsd ks fr dl
            self_pay other_pay htlcs direct n sd = Inr r \<longrightarrow>
         length (outputs (wtx (res_tx r))) = commit_tx_num_untrimmed C mem htlcs fr dl sd
             + (if amount_msat_greater_eq_sat (fst pays) dl then 1 else 0)
             + (if amount_msat_greater_eq_sat (snd pays) dl then 1 else 0)
       \<and> (amount_msat_greater_eq_sat (fst pays) dl \<longrightarrow>
             to_local_output C tsd ks (fst pays) \<in> set (outputs (wtx (res_tx r))))
       \<and> (amount_msat_greater_eq_sat (snd pays) dl \<longrightarrow>
             to_remote_output C ks (snd pays) \<in> set (outputs (wtx (res_tx r))))
       \<and> (\<not> direct \<longrightarrow> res_direct_outputs r = None)
       \<and> (direct \<and> dummy_to_local \<notin> set htlcs \<and> dummy_to_remote \<notin> set htlcs \<longrightarrow>
            (\<exists>d. res_direct_outputs r = Some d
               \<and> (direct_get d LOCAL \<noteq> None \<longleftrightarrow> amount_msat_greater_eq_sat (fst pays) dl)
               \<and> (direct_get d REMOTE \<noteq> None \<longleftrightarrow> amount_msat_greater_eq_sat (snd pays) dl)
               \<and> (\<forall>i. direct_get d LOCAL = Some i \<longrightarrow>
                      i < length (outputs (wtx (res_tx r)))
                      \<and> outputs (wtx (res_tx r)) ! i = to_local_output C tsd ks (fst pays))
               \<and> (\<forall>i. direct_get d REMOTE = Some i \<longrightarrow>
                      i < length (outputs (wtx (res_tx r)))
                      \<and> outputs (wtx (res_tx r)) ! i = to_remote_output C ks (snd pays))))"
    by blast
qed

theorem dust_omission_witness:
  "validated_inputs ex_collab ex_mem 100000 LOCAL 253 546 200000 99800000 [] LOCAL
   \<and> commit_tx ex_collab ex_uninit ex_mem [0xAA] 0 100000 LOCAL 144 ex_keyset 253 546
        200000 99800000 [] True 0x123456789ABC LOCAL = Inr ex_result_dust
   \<and> balances_after_fee ex_collab ex_mem LOCAL 253 546 200000 99800000 [] LOCAL
        = (17000, 99800000)
   \<and> \<not> amount_msat_greater_eq_sat 17000 546
   \<and> amount_msat_greater_eq_sat 99800000 546
   \<and> length (outputs (wtx (res_tx ex_result_dust))) = 1
   \<and> res_direct_outputs ex_result_dust = Some (None, Some 0)
   \<and> direct_get (None, Some 0) LOCAL = None
   \<and> outputs (wtx (res_tx ex_result_dust)) ! 0 = to_remote_output ex_collab ex_keyset 99800000"
proof -
  have p: "balances_after_fee ex_collab ex_mem LOCAL 253 546 200000 99800000 [] LOCAL
        = (17000, 99800000)"
    by (simp add: balances_after_fee_def ex_eval)
  have v: "validated_inputs ex_collab ex_mem 100000 LOCAL 253 546 200000 99800000 [] LOCAL"
    by (simp add: validated_inputs_def p amount_msat_greater_eq_sat_def)
  have a: "\<not> amount_msat_greater_eq_sat 17000 546" "amount_msat_greater_eq_sat 99800000 546"
    by (simp_all add: amount_msat_greater_eq_sat_def)
  have d: "res_direct_outputs ex_result_dust = Some (None, Some 0)"
    by (simp add: ex_result_dust_def)
  have s: "dummy_to_local \<notin> set ([] :: addr list)" "dummy_to_remote \<notin> set ([] :: addr list)"
    by simp_all
  from dust_omission [of ex_collab ex_mem 100000 LOCAL 253 546 200000 99800000 "[]" LOCAL
      ex_uninit "[0xAA]" 0 144 ex_keyset True "0x123456789ABC"]
    v ex_call_dust p a d s
  show ?thesis by simp
qed

lemma length_filter_mset:
  assumes "mset xs = mset ys"
  shows "length (filter P xs) = length (filter P ys)"
proof -
  have "mset (filter P xs) = mset (filter P ys)"
    by (simp add: assms)
  then show ?thesis by (rule mset_eq_length)
qed

lemma mset_map_cong_mset:
  assumes "mset xs = mset ys"
  shows "mset (map f xs) = mset (map f ys)"
proof -
  have "mset (map f xs) = image_mset f (mset xs)" by simp
  also have "\<dots> = image_mset f (mset ys)" by (simp only: assms)
  also have "\<dots> = mset (map f ys)" by simp
  finally show ?thesis .
qed

lemma htlc_entries_of_built_htlcmap:
  assumes "NULL \<notin> set htlcs" "dummy_to_local \<notin> set htlcs" "dummy_to_remote \<notin> set htlcs"
  shows "length (filter (\<lambda>p. p \<noteq> NULL)
           (if direct then clear_markers (built_htlcmap C mem fr dl self_pay other_pay htlcs direct sd)
            else built_htlcmap C mem fr dl self_pay other_pay htlcs direct sd))
         = commit_tx_num_untrimmed C mem htlcs fr dl sd"
proof -
  let ?off = "untrimmed_offered C mem fr dl sd htlcs"
  let ?rec = "untrimmed_received C mem fr dl sd htlcs"
  let ?f = "\<lambda>p. if p = dummy_to_local \<or> p = dummy_to_remote then NULL else p"
  have sub: "set ?off \<subseteq> set htlcs" "set ?rec \<subseteq> set htlcs"
    by (auto simp: untrimmed_offered_def untrimmed_received_def)
  have id: "map ?f ?off = ?off" "map ?f ?rec = ?rec"
    using sub assms by (auto intro!: map_idI)
  have nn: "filter (\<lambda>p. p \<noteq> NULL) ?off = ?off" "filter (\<lambda>p. p \<noteq> NULL) ?rec = ?rec"
    using sub assms by (auto intro!: filter_True)
  show ?thesis
    by (cases direct)
       (simp_all add: built_htlcmap_def clear_markers_def id nn num_untrimmed_split)
qed

lemma htlc_entries_of_result:
  assumes ok: "commit_tx C U mem funding_txid funding_txout funding opener tsd ks fr dl
           self_pay other_pay htlcs direct n sd = Inr r"
    and valid: "NULL \<notin> set htlcs" "dummy_to_local \<notin> set htlcs" "dummy_to_remote \<notin> set htlcs"
  shows "length (filter (\<lambda>p. p \<noteq> NULL) (res_htlcmap r))
           = commit_tx_num_untrimmed C mem htlcs fr dl sd"
proof -
  let ?pays = "balances_after_fee C mem opener fr dl self_pay other_pay htlcs sd"
  let ?bo = "built_outputs C mem tsd ks fr dl (fst ?pays) (snd ?pays) htlcs sd"
  let ?bm = "built_htlcmap C mem fr dl (fst ?pays) (snd ?pays) htlcs direct sd"
  obtain perm where perm: "mset perm = mset [0..<length ?bo]"
    and hmap: "res_htlcmap r = (if direct then clear_markers (map (\<lambda>i. ?bm ! i) perm)
                               else map (\<lambda>i. ?bm ! i) perm)"
    using commit_tx_Inr_permutation [OF ok] by blast
  have "mset perm = mset [0..<length ?bm]"
    using perm by (simp add: length_built_htlcmap [of C mem fr dl _ _ htlcs direct sd tsd ks])
  then have m: "mset (map (\<lambda>i. ?bm ! i) perm) = mset ?bm"
    by (rule mset_map_nth_permutation)
  have mc: "mset (clear_markers (map (\<lambda>i. ?bm ! i) perm)) = mset (clear_markers ?bm)"
    unfolding clear_markers_def using m by (rule mset_map_cong_mset)
  have "mset (res_htlcmap r) = mset (if direct then clear_markers ?bm else ?bm)"
  proof (cases direct)
    case True
    then have "res_htlcmap r = clear_markers (map (\<lambda>i. ?bm ! i) perm)"
      by (simp only: hmap if_True)
    then show ?thesis unfolding if_P [OF True] by (simp only: mc)
  next
    case False
    then have "res_htlcmap r = map (\<lambda>i. ?bm ! i) perm"
      by (simp only: hmap if_False)
    then show ?thesis unfolding if_not_P [OF False] by (simp only: m)
  qed
  then have "length (filter (\<lambda>p. p \<noteq> NULL) (res_htlcmap r))
      = length (filter (\<lambda>p. p \<noteq> NULL) (if direct then clear_markers ?bm else ?bm))"
    by (rule length_filter_mset)
  then show ?thesis
    by (simp only: htlc_entries_of_built_htlcmap [OF valid])
qed

lemma outputs_of_result_mset:
  assumes ok: "commit_tx C U mem funding_txid funding_txout funding opener tsd ks fr dl
           self_pay other_pay htlcs direct n sd = Inr r"
  shows "mset (outputs (wtx (res_tx r)))
           = mset (built_outputs C mem tsd ks fr dl
               (fst (balances_after_fee C mem opener fr dl self_pay other_pay htlcs sd))
               (snd (balances_after_fee C mem opener fr dl self_pay other_pay htlcs sd))
               htlcs sd)"
proof -
  obtain perm where perm: "mset perm = mset [0..<length (built_outputs C mem tsd ks fr dl
               (fst (balances_after_fee C mem opener fr dl self_pay other_pay htlcs sd))
               (snd (balances_after_fee C mem opener fr dl self_pay other_pay htlcs sd))
               htlcs sd)]"
    and outs: "outputs (wtx (res_tx r)) = map (\<lambda>i. built_outputs C mem tsd ks fr dl
               (fst (balances_after_fee C mem opener fr dl self_pay other_pay htlcs sd))
               (snd (balances_after_fee C mem opener fr dl self_pay other_pay htlcs sd))
               htlcs sd ! i) perm"
    using commit_tx_Inr_permutation [OF ok] by blast
  show ?thesis
    unfolding outs by (rule mset_map_nth_permutation [OF perm])
qed

text \<open>
  C3.  Trim-count consistency.  The two emission loops apply the predicate that
  \<open>commit_tx_num_untrimmed\<close> counts with: from any state they advance \<open>n\<close> and the output
  list by exactly that count, and \<open>build_outputs\<close>, given that count for its allocation,
  ends with one output per untrimmed HTLC plus the balance outputs.  On validated inputs
  \<open>commit_tx\<close> returns a result, and in every result (for HTLC pointers that are none of
  NULL, \<open>0x01\<close>, \<open>0x02\<close>) the number of HTLC entries of the returned map is the untrimmed
  count, and the outputs are those built with the balances left by the base fee for
  exactly that many HTLC outputs: the count that sized the fee is the count of HTLC
  outputs in the transaction.
\<close>

theorem trim_count_consistency:
  fixes C U mem funding_txid funding_txout funding opener tsd ks fr dl self_pay other_pay
    htlcs direct n sd s sp op
  defines "untrimmed \<equiv> commit_tx_num_untrimmed C mem htlcs fr dl sd"
  shows
  "st_n (add_received_htlcs C mem ks fr dl sd htlcs
           (add_offered_htlcs C mem ks fr dl sd htlcs s)) = st_n s + untrimmed
   \<and> length (outputs (wtx (st_tx (add_received_htlcs C mem ks fr dl sd htlcs
               (add_offered_htlcs C mem ks fr dl sd htlcs s)))))
        = length (outputs (wtx (st_tx s))) + untrimmed
   \<and> (\<exists>s4. build_outputs C U mem tsd ks fr dl sp op htlcs direct sd untrimmed = Inr s4
         \<and> st_n s4 = untrimmed + (if amount_msat_greater_eq_sat sp dl then 1 else 0)
                                 + (if amount_msat_greater_eq_sat op dl then 1 else 0)
         \<and> length (outputs (wtx (st_tx s4))) = st_n s4)
   \<and> (validated_inputs C mem funding opener fr dl self_pay other_pay htlcs sd \<longrightarrow>
        (\<exists>r. commit_tx C U mem funding_txid funding_txout funding opener tsd ks fr dl
              self_pay other_pay htlcs direct n sd = Inr r))
   \<and> (\<forall>r. commit_tx C U mem funding_txid funding_txout funding opener tsd ks fr dl
              self_pay other_pay htlcs direct n sd = Inr r \<longrightarrow>
          outputs_allocation_len (wtx (res_tx r)) = untrimmed + 2
        \<and> (NULL \<notin> set htlcs \<and> dummy_to_local \<notin> set htlcs \<and> dummy_to_remote \<notin> set htlcs \<longrightarrow>
             length (filter (\<lambda>p. p \<noteq> NULL) (res_htlcmap r)) = untrimmed
           \<and> mset (outputs (wtx (res_tx r)))
               = mset (built_outputs C mem tsd ks fr dl
                   (fst (try_subtract_fee opener sd
                      (commit_tx_base_fee C fr (length (filter (\<lambda>p. p \<noteq> NULL) (res_htlcmap r))))
                      self_pay other_pay))
                   (snd (try_subtract_fee opener sd
                      (commit_tx_base_fee C fr (length (filter (\<lambda>p. p \<noteq> NULL) (res_htlcmap r))))
                      self_pay other_pay))
                   htlcs sd)))"
proof -
  have loops: "st_n (add_received_htlcs C mem ks fr dl sd htlcs
           (add_offered_htlcs C mem ks fr dl sd htlcs s)) = st_n s + untrimmed"
    "length (outputs (wtx (st_tx (add_received_htlcs C mem ks fr dl sd htlcs
               (add_offered_htlcs C mem ks fr dl sd htlcs s)))))
        = length (outputs (wtx (st_tx s))) + untrimmed"
    by (simp_all add: untrimmed_def add_received_htlcs_n add_offered_htlcs_n
        add_received_htlcs_outputs add_offered_htlcs_outputs num_untrimmed_split)
  obtain s4 where b: "build_outputs C U mem tsd ks fr dl sp op htlcs direct sd untrimmed = Inr s4"
    and n4: "st_n s4 = length (built_outputs C mem tsd ks fr dl sp op htlcs sd)"
    and w4: "wtx (st_tx s4) = \<lparr>version = 2, locktime = 0, inputs = [],
           outputs = built_outputs C mem tsd ks fr dl sp op htlcs sd,
           outputs_allocation_len = untrimmed + 2\<rparr>"
    using build_outputs_closed [OF untrimmed_def [THEN meta_eq_to_obj_eq],
        of U tsd ks sp op direct]
    by blast
  have build: "\<exists>s4. build_outputs C U mem tsd ks fr dl sp op htlcs direct sd untrimmed = Inr s4
         \<and> st_n s4 = untrimmed + (if amount_msat_greater_eq_sat sp dl then 1 else 0)
                                 + (if amount_msat_greater_eq_sat op dl then 1 else 0)
         \<and> length (outputs (wtx (st_tx s4))) = st_n s4"
    by (rule exI [of _ s4])
       (simp add: b w4 n4, simp add: built_outputs_def untrimmed_def num_untrimmed_split)
  have succ: "\<exists>r. commit_tx C U mem funding_txid funding_txout funding opener tsd ks fr dl
              self_pay other_pay htlcs direct n sd = Inr r"
    if "validated_inputs C mem funding opener fr dl self_pay other_pay htlcs sd"
    using that by (rule validated_inputs_succeed)
  have res: "outputs_allocation_len (wtx (res_tx r)) = untrimmed + 2
        \<and> (NULL \<notin> set htlcs \<and> dummy_to_local \<notin> set htlcs \<and> dummy_to_remote \<notin> set htlcs \<longrightarrow>
             length (filter (\<lambda>p. p \<noteq> NULL) (res_htlcmap r)) = untrimmed
           \<and> mset (outputs (wtx (res_tx r)))
               = mset (built_outputs C mem tsd ks fr dl
                   (fst (try_subtract_fee opener sd
                      (commit_tx_base_fee C fr (length (filter (\<lambda>p. p \<noteq> NULL) (res_htlcmap r))))
                      self_pay other_pay))
                   (snd (try_subtract_fee opener sd
                      (commit_tx_base_fee C fr (length (filter (\<lambda>p. p \<noteq> NULL) (res_htlcmap r))))
                      self_pay other_pay))
                   htlcs sd))"
    if ok: "commit_tx C U mem funding_txid funding_txout funding opener tsd ks fr dl
              self_pay other_pay htlcs direct n sd = Inr r" for r
  proof (intro conjI impI)
    show "outputs_allocation_len (wtx (res_tx r)) = untrimmed + 2"
      by (simp add: commit_tx_Inr(5) [OF ok] untrimmed_def)
  next
    assume "NULL \<notin> set htlcs \<and> dummy_to_local \<notin> set htlcs \<and> dummy_to_remote \<notin> set htlcs"
    then have k: "length (filter (\<lambda>p. p \<noteq> NULL) (res_htlcmap r)) = untrimmed"
      unfolding untrimmed_def by (intro htlc_entries_of_result [OF ok]) simp_all
    show "length (filter (\<lambda>p. p \<noteq> NULL) (res_htlcmap r)) = untrimmed"
      by (rule k)
    show "mset (outputs (wtx (res_tx r)))
               = mset (built_outputs C mem tsd ks fr dl
                   (fst (try_subtract_fee opener sd
                      (commit_tx_base_fee C fr (length (filter (\<lambda>p. p \<noteq> NULL) (res_htlcmap r))))
                      self_pay other_pay))
                   (snd (try_subtract_fee opener sd
                      (commit_tx_base_fee C fr (length (filter (\<lambda>p. p \<noteq> NULL) (res_htlcmap r))))
                      self_pay other_pay))
                   htlcs sd)"
      unfolding k untrimmed_def
      using outputs_of_result_mset [OF ok] by (simp only: balances_after_fee_def)
  qed
  from loops build succ res show ?thesis by blast
qed

theorem trim_count_consistency_witness:
  "validated_inputs ex_collab ex_mem 100000 LOCAL 253 546 60000000 30900000 [16, 32, 48] LOCAL
   \<and> NULL \<notin> set [16, 32, 48 :: addr] \<and> dummy_to_local \<notin> set [16, 32, 48 :: addr]
   \<and> dummy_to_remote \<notin> set [16, 32, 48 :: addr]
   \<and> commit_tx ex_collab ex_uninit ex_mem [0xAA] 0 100000 LOCAL 144 ex_keyset 253 546
        60000000 30900000 [16, 32, 48] False 0x123456789ABC LOCAL = Inr ex_result_trimmed
   \<and> commit_tx_num_untrimmed ex_collab ex_mem [16, 32, 48] 253 546 LOCAL = 2
   \<and> length (filter (\<lambda>p. p \<noteq> NULL) (res_htlcmap ex_result_trimmed)) = 2
   \<and> outputs_allocation_len (wtx (res_tx ex_result_trimmed)) = 4
   \<and> commit_tx_base_fee ex_collab 253 2 = 270
   \<and> try_subtract_fee LOCAL LOCAL 270 60000000 30900000 = (59730000, 30900000)
   \<and> mset (outputs (wtx (res_tx ex_result_trimmed)))
        = mset (built_outputs ex_collab ex_mem 144 ex_keyset 253 546 59730000 30900000
                  [16, 32, 48] LOCAL)"
proof -
  have v: "validated_inputs ex_collab ex_mem 100000 LOCAL 253 546 60000000 30900000
             [16, 32, 48] LOCAL"
    by (simp add: validated_inputs_def ex_defs)
  have p: "NULL \<notin> set [16, 32, 48 :: addr]" "dummy_to_local \<notin> set [16, 32, 48 :: addr]"
      "dummy_to_remote \<notin> set [16, 32, 48 :: addr]"
    by (simp_all add: NULL_def dummy_to_local_def dummy_to_remote_def)
  have u: "commit_tx_num_untrimmed ex_collab ex_mem [16, 32, 48] 253 546 LOCAL = 2"
    by (simp add: ex_defs)
  have f: "commit_tx_base_fee ex_collab 253 2 = 270"
    by (simp add: ex_collab_def)
  have t: "try_subtract_fee LOCAL LOCAL 270 60000000 30900000 = (59730000, 30900000)"
    by (simp add: try_subtract_fee_def amount_msat_sub_sat_floor_def)
  from trim_count_consistency [of ex_collab ex_mem ex_keyset 253 546 LOCAL "[16, 32, 48]" _
      ex_uninit 144 _ _ False 100000 LOCAL 60000000 30900000 "[0xAA]" 0 "0x123456789ABC"]
    v p ex_call_trimmed u f t
  show ?thesis by simp
qed


text \<open>
  C8.  Input-order independence: for two HTLC lists that are permutations of each other
  (and whatever the uninitialised scratch memory of the two calls held), \<open>commit_tx\<close>
  fails with the same error or returns the same transaction: version, locktime, input and
  the outputs in the same order.  On validated inputs both calls return a transaction.
  Where the script generators are collision-free, the witness scripts recorded beside the
  outputs agree as well.
\<close>

theorem input_order_independence:
  assumes perm: "mset htlcs' = mset htlcs"
  shows "(validated_inputs C mem funding opener fr dl self_pay other_pay htlcs sd \<longrightarrow>
           (\<exists>r r'. commit_tx C U mem funding_txid funding_txout funding opener tsd ks fr dl
                      self_pay other_pay htlcs direct n sd = Inr r
                 \<and> commit_tx C U' mem funding_txid funding_txout funding opener tsd ks fr dl
                      self_pay other_pay htlcs' direct n sd = Inr r'
                 \<and> wtx (res_tx r') = wtx (res_tx r)))
     \<and> map_sum id (\<lambda>r. wtx (res_tx r))
           (commit_tx C U' mem funding_txid funding_txout funding opener tsd ks fr dl
              self_pay other_pay htlcs' direct n sd)
       = map_sum id (\<lambda>r. wtx (res_tx r))
           (commit_tx C U mem funding_txid funding_txout funding opener tsd ks fr dl
              self_pay other_pay htlcs direct n sd)
     \<and> (inj (scriptpubkey_p2wsh C)
          \<and> scriptpubkey_p2wpkh C (other_payment_key ks) \<notin> range (scriptpubkey_p2wsh C) \<longrightarrow>
        map_sum id res_tx
           (commit_tx C U' mem funding_txid funding_txout funding opener tsd ks fr dl
              self_pay other_pay htlcs' direct n sd)
       = map_sum id res_tx
           (commit_tx C U mem funding_txid funding_txout funding opener tsd ks fr dl
              self_pay other_pay htlcs direct n sd))"
proof -
  let ?u = "commit_tx_num_untrimmed C mem htlcs fr dl sd"
  let ?pays = "try_subtract_fee opener sd (commit_tx_base_fee C fr ?u) self_pay other_pay"
  let ?bo = "built_outputs C mem tsd ks fr dl (fst ?pays) (snd ?pays) htlcs sd"
  let ?bo' = "built_outputs C mem tsd ks fr dl (fst ?pays) (snd ?pays) htlcs' sd"
  let ?bw = "built_witscripts C mem tsd ks fr dl (fst ?pays) (snd ?pays) htlcs sd"
  let ?bw' = "built_witscripts C mem tsd ks fr dl (fst ?pays) (snd ?pays) htlcs' sd"
  let ?perm = "output_permutation ?bo (built_cltvs C U mem fr dl htlcs sd)"
  let ?perm' = "output_permutation ?bo' (built_cltvs C U' mem fr dl htlcs' sd)"
  have u: "commit_tx_num_untrimmed C mem htlcs' fr dl sd = ?u"
    by (rule num_untrimmed_mset [OF perm])
  have ms: "mset ?bo' = mset ?bo"
    by (rule built_outputs_mset [OF perm])
  have "(mset ?bo' = {#}) = (mset ?bo = {#})"
    by (simp only: ms)
  then have e: "(?bo' = []) = (?bo = [])"
    by (simp only: mset_zero_iff)
  have "set ?bo' = set ?bo"
    by (rule mset_eq_setD [OF ms])
  then have la: "list_all P ?bo' = list_all P ?bo" for P
    by (simp only: list_all_iff)
  have po: "map (\<lambda>i. ?bo' ! i) ?perm' = map (\<lambda>i. ?bo ! i) ?perm"
    by (rule permuted_outputs_unique [OF ms])
  have first: "map_sum id (\<lambda>r. wtx (res_tx r))
           (commit_tx C U' mem funding_txid funding_txout funding opener tsd ks fr dl
              self_pay other_pay htlcs' direct n sd)
       = map_sum id (\<lambda>r. wtx (res_tx r))
           (commit_tx C U mem funding_txid funding_txout funding opener tsd ks fr dl
              self_pay other_pay htlcs direct n sd)"
    unfolding commit_tx_closed u by (simp add: e la po)
  have second: "map_sum id res_tx
           (commit_tx C U' mem funding_txid funding_txout funding opener tsd ks fr dl
              self_pay other_pay htlcs' direct n sd)
       = map_sum id res_tx
           (commit_tx C U mem funding_txid funding_txout funding opener tsd ks fr dl
              self_pay other_pay htlcs direct n sd)"
    if inj: "inj (scriptpubkey_p2wsh C)"
      and disj: "scriptpubkey_p2wpkh C (other_payment_key ks) \<notin> range (scriptpubkey_p2wsh C)"
  proof -
    obtain g where g: "\<And>mem tsd fr dl self_pay other_pay htlcs sd.
           built_witscripts C mem tsd ks fr dl self_pay other_pay htlcs sd
             = map g (built_outputs C mem tsd ks fr dl self_pay other_pay htlcs sd)"
      using witscripts_determined [OF inj disj] by blast
    have w: "map (\<lambda>i. map g xs ! i) (output_permutation xs cl)
               = map g (map (\<lambda>i. xs ! i) (output_permutation xs cl))" for xs cl
      by simp
    have pw: "map (\<lambda>i. ?bw' ! i) ?perm' = map (\<lambda>i. ?bw ! i) ?perm"
      unfolding g w po ..
    show ?thesis
      unfolding commit_tx_closed u by (simp add: e la po pw)
  qed
  have succ: "\<exists>r r'. commit_tx C U mem funding_txid funding_txout funding opener tsd ks fr dl
                      self_pay other_pay htlcs direct n sd = Inr r
                 \<and> commit_tx C U' mem funding_txid funding_txout funding opener tsd ks fr dl
                      self_pay other_pay htlcs' direct n sd = Inr r'
                 \<and> wtx (res_tx r') = wtx (res_tx r)"
    if v: "validated_inputs C mem funding opener fr dl self_pay other_pay htlcs sd"
  proof -
    obtain r where r: "commit_tx C U mem funding_txid funding_txout funding opener tsd ks fr dl
                      self_pay other_pay htlcs direct n sd = Inr r"
      using validated_inputs_succeed [OF v] by blast
    have m: "map_sum id (\<lambda>r. wtx (res_tx r))
           (commit_tx C U' mem funding_txid funding_txout funding opener tsd ks fr dl
              self_pay other_pay htlcs' direct n sd) = Inr (wtx (res_tx r))"
      unfolding first by (simp only: r map_sum.simps)
    obtain r' where r': "commit_tx C U' mem funding_txid funding_txout funding opener tsd ks
              fr dl self_pay other_pay htlcs' direct n sd = Inr r'"
      using m
      by (cases "commit_tx C U' mem funding_txid funding_txout funding opener tsd ks
              fr dl self_pay other_pay htlcs' direct n sd") simp_all
    have "wtx (res_tx r') = wtx (res_tx r)"
      using m unfolding r' by simp
    with r r' show ?thesis by blast
  qed
  from first second succ show ?thesis by blast
qed

theorem input_order_independence_witness:
  "mset [64, 16 :: addr] = mset [16, 64]
   \<and> validated_inputs ex_collab ex_mem2 100000 LOCAL 253 546 60000000 32000000 [16, 64] LOCAL
   \<and> inj (scriptpubkey_p2wsh ex_collab)
   \<and> scriptpubkey_p2wpkh ex_collab (other_payment_key ex_keyset)
        \<notin> range (scriptpubkey_p2wsh ex_collab)
   \<and> commit_tx ex_collab ex_uninit ex_mem2 [0xAA] 0 100000 LOCAL 144 ex_keyset 253 546
        60000000 32000000 [16, 64] True 0x123456789ABC LOCAL = Inr ex_result_offered
   \<and> commit_tx ex_collab ex_uninit ex_mem2 [0xAA] 0 100000 LOCAL 144 ex_keyset 253 546
        60000000 32000000 [64, 16] True 0x123456789ABC LOCAL = Inr ex_result_offered
   \<and> map_sum id res_tx
        (commit_tx ex_collab ex_uninit ex_mem2 [0xAA] 0 100000 LOCAL 144 ex_keyset 253 546
           60000000 32000000 [64, 16] True 0x123456789ABC LOCAL)
      = map_sum id res_tx
        (commit_tx ex_collab ex_uninit ex_mem2 [0xAA] 0 100000 LOCAL 144 ex_keyset 253 546
           60000000 32000000 [16, 64] True 0x123456789ABC LOCAL)"
proof -
  have p: "mset [64, 16 :: addr] = mset [16, 64]"
    by (simp add: add_mset_commute)
  have v: "validated_inputs ex_collab ex_mem2 100000 LOCAL 253 546 60000000 32000000
             [16, 64] LOCAL"
    by (simp add: validated_inputs_def ex_defs ex_mem2_def)
  have i: "inj (scriptpubkey_p2wsh ex_collab)"
    by (simp add: ex_collab_def inj_def)
  have d: "scriptpubkey_p2wpkh ex_collab (other_payment_key ex_keyset)
        \<notin> range (scriptpubkey_p2wsh ex_collab)"
    by (auto simp: ex_collab_def)
  from input_order_independence [OF p, of ex_collab ex_mem2 100000 LOCAL 253 546 60000000
      32000000 LOCAL ex_uninit "[0xAA]" 0 144 ex_keyset True "0x123456789ABC" ex_uninit]
    p v i d ex_call_offered ex_call_offered_swapped
  show ?thesis by simp
qed


text \<open>
  C7, as stated, fails.  The call below satisfies every stated precondition: the balances
  add up without overflow and to no more than the funding amount, and a channel reserve of
  600 satoshi is at least the dust limit of 546; the funder even holds that reserve.  With
  no HTLC, the base fee of 183 satoshi leaves the funder 417 satoshi, below the dust limit,
  so no output is emitted and \<open>assert(n > 0)\<close> fires.
\<close>

theorem zero_outputs_reachable:
  "(600000 :: nat) + 0 < 2 ^ 64
   \<and> \<not> amount_msat_greater_sat (600000 + 0) 100000
   \<and> (546 :: nat) \<le> 600
   \<and> amount_msat_greater_eq_sat 600000 600
   \<and> balances_after_fee ex_collab ex_mem LOCAL 253 546 600000 0 [] LOCAL = (417000, 0)
   \<and> commit_tx ex_collab ex_uninit ex_mem [0xAA] 0 100000 LOCAL 144 ex_keyset 253 546
        600000 0 [] True 0x123456789ABC LOCAL = Inl Assert_n_positive"
proof -
  have "commit_tx ex_collab ex_uninit ex_mem [0xAA] 0 100000 LOCAL 144 ex_keyset 253 546
        600000 0 [] True 0x123456789ABC LOCAL = Inl Assert_n_positive"
    unfolding commit_tx_closed by (simp add: ex_eval)
  moreover have "balances_after_fee ex_collab ex_mem LOCAL 253 546 600000 0 [] LOCAL
      = (417000, 0)"
    by (simp add: balances_after_fee_def ex_eval)
  ultimately show ?thesis
    by (simp add: amount_msat_greater_sat_def amount_msat_greater_eq_sat_def)
qed

text \<open>
  C7, amended.  Let the balances add up without overflow and to no more than the funding
  amount, and let every HTLC amount be a 64-bit value (as its C type makes it).  If some
  HTLC is untrimmed, or one of the balances is at least the dust limit after the fee has
  been taken from the funder's, none of the abort and assert branches fires and
  \<open>commit_tx\<close> returns a transaction.  Otherwise the zero-output assertion fires.
\<close>

theorem fatal_errors_unreachable:
  fixes C U mem funding_txid funding_txout funding opener tsd ks fr dl self_pay other_pay
    htlcs direct n sd
  defines "pays \<equiv> balances_after_fee C mem opener fr dl self_pay other_pay htlcs sd"
  assumes no_overflow: "self_pay + other_pay < 2 ^ 64"
    and within: "\<not> amount_msat_greater_sat (self_pay + other_pay) funding"
    and u64: "list_all (\<lambda>p. amount (mem p) < 2 ^ 64) htlcs"
  shows "(list_ex (\<lambda>p. \<not> trim C (mem p) fr dl sd) htlcs
            \<or> amount_msat_greater_eq_sat (fst pays) dl
            \<or> amount_msat_greater_eq_sat (snd pays) dl \<longrightarrow>
          (\<exists>r. commit_tx C U mem funding_txid funding_txout funding opener tsd ks fr dl
                 self_pay other_pay htlcs direct n sd = Inr r))
       \<and> (\<not> (list_ex (\<lambda>p. \<not> trim C (mem p) fr dl sd) htlcs
              \<or> amount_msat_greater_eq_sat (fst pays) dl
              \<or> amount_msat_greater_eq_sat (snd pays) dl) \<longrightarrow>
          commit_tx C U mem funding_txid funding_txout funding opener tsd ks fr dl
             self_pay other_pay htlcs direct n sd = Inl Assert_n_positive)"
proof (rule conjI)
  have tot: "self_pay + other_pay \<le> funding * 1000"
    using within by (simp add: amount_msat_greater_sat_def)
  show "list_ex (\<lambda>p. \<not> trim C (mem p) fr dl sd) htlcs
            \<or> amount_msat_greater_eq_sat (fst pays) dl
            \<or> amount_msat_greater_eq_sat (snd pays) dl \<longrightarrow>
          (\<exists>r. commit_tx C U mem funding_txid funding_txout funding opener tsd ks fr dl
                 self_pay other_pay htlcs direct n sd = Inr r)"
  proof
    assume "list_ex (\<lambda>p. \<not> trim C (mem p) fr dl sd) htlcs
            \<or> amount_msat_greater_eq_sat (fst pays) dl
            \<or> amount_msat_greater_eq_sat (snd pays) dl"
    then have "validated_inputs C mem funding opener fr dl self_pay other_pay htlcs sd"
      unfolding validated_inputs_def pays_def using no_overflow tot u64 by (intro conjI)
    then show "\<exists>r. commit_tx C U mem funding_txid funding_txout funding opener tsd ks fr dl
                 self_pay other_pay htlcs direct n sd = Inr r"
      by (rule validated_inputs_succeed)
  qed
  show "\<not> (list_ex (\<lambda>p. \<not> trim C (mem p) fr dl sd) htlcs
              \<or> amount_msat_greater_eq_sat (fst pays) dl
              \<or> amount_msat_greater_eq_sat (snd pays) dl) \<longrightarrow>
          commit_tx C U mem funding_txid funding_txout funding opener tsd ks fr dl
             self_pay other_pay htlcs direct n sd = Inl Assert_n_positive"
  proof
    assume "\<not> (list_ex (\<lambda>p. \<not> trim C (mem p) fr dl sd) htlcs
              \<or> amount_msat_greater_eq_sat (fst pays) dl
              \<or> amount_msat_greater_eq_sat (snd pays) dl)"
    then have "\<not> built_outputs C mem tsd ks fr dl (fst pays) (snd pays) htlcs sd \<noteq> []"
      using built_outputs_nonempty_iff [of C mem tsd ks fr dl "fst pays" "snd pays" htlcs sd]
      by blast
    then have e: "built_outputs C mem tsd ks fr dl
        (fst (try_subtract_fee opener sd
           (commit_tx_base_fee C fr (commit_tx_num_untrimmed C mem htlcs fr dl sd))
           self_pay other_pay))
        (snd (try_subtract_fee opener sd
           (commit_tx_base_fee C fr (commit_tx_num_untrimmed C mem htlcs fr dl sd))
           self_pay other_pay)) htlcs sd = []"
      by (simp add: pays_def balances_after_fee_def)
    have gt: "\<not> funding * 1000 < self_pay + other_pay"
      using tot by simp
    show "commit_tx C U mem funding_txid funding_txout funding opener tsd ks fr dl
             self_pay other_pay htlcs direct n sd = Inl Assert_n_positive"
      unfolding commit_tx_closed by (simp only: e no_overflow gt not_True_eq_False if_False
          not_False_eq_True if_True simp_thms)
  qed
qed

theorem fatal_errors_unreachable_witness:
  "(60000000 :: nat) + 31000000 < 2 ^ 64
   \<and> \<not> amount_msat_greater_sat (60000000 + 31000000) 100000
   \<and> list_all (\<lambda>p. amount (ex_mem p) < 2 ^ 64) [16, 32]
   \<and> list_ex (\<lambda>p. \<not> trim ex_collab (ex_mem p) 253 546 LOCAL) [16, 32]
   \<and> commit_tx ex_collab ex_uninit ex_mem [0xAA] 0 100000 LOCAL 144 ex_keyset 253 546
        60000000 31000000 [16, 32] True 0x123456789ABC LOCAL = Inr ex_result"
proof -
  have a: "(60000000 :: nat) + 31000000 < 2 ^ 64" by simp
  have b: "\<not> amount_msat_greater_sat (60000000 + 31000000) 100000"
    by (simp add: amount_msat_greater_sat_def)
  have c: "list_all (\<lambda>p. amount (ex_mem p) < 2 ^ 64) [16, 32]"
    by (simp add: ex_defs)
  have d: "list_ex (\<lambda>p. \<not> trim ex_collab (ex_mem p) 253 546 LOCAL) [16, 32]"
    by (simp add: ex_defs)
  from fatal_errors_unreachable [OF a b c, of ex_collab 253 546 LOCAL LOCAL ex_uninit "[0xAA]"
      0 144 ex_keyset True "0x123456789ABC"] a b c d ex_call
  show ?thesis by simp
qed


lemma sum_list_filter_split:
  fixes f :: "'a \<Rightarrow> nat"
  shows "sum_list (map f (filter (\<lambda>p. Q p \<and> P p) xs))
           + sum_list (map f (filter (\<lambda>p. \<not> Q p \<and> P p) xs))
         = sum_list (map f (filter P xs))"
  by (induction xs) simp_all

lemma sum_list_div_le:
  fixes g :: "'a \<Rightarrow> nat"
  shows "1000 * sum_list (map (\<lambda>p. g p div 1000) (filter P xs)) \<le> sum_list (map g xs)"
proof (induction xs)
  case Nil
  show ?case by simp
next
  case (Cons a xs)
  let ?r = "sum_list (map (\<lambda>p. g p div 1000) (filter P xs))"
  have a: "1000 * (g a div 1000) \<le> g a"
    by (rule times_div_less_eq_dividend)
  show ?case
  proof (cases "P a")
    case True
    have "1000 * (g a div 1000 + ?r) = 1000 * (g a div 1000) + 1000 * ?r"
      by (rule distrib_left)
    also have "\<dots> \<le> g a + sum_list (map g xs)"
      using a Cons.IH by (rule add_mono)
    finally show ?thesis using True by simp
  next
    case False
    have "1000 * ?r \<le> g a + sum_list (map g xs)"
      using Cons.IH by (rule trans_le_add2)
    then show ?thesis using False by simp
  qed
qed

lemma sum_list_div_eq:
  fixes g :: "'a \<Rightarrow> nat"
  assumes "list_all P xs" and "list_all (\<lambda>p. 1000 dvd g p) xs"
  shows "1000 * sum_list (map (\<lambda>p. g p div 1000) (filter P xs)) = sum_list (map g xs)"
  using assms
proof (induction xs)
  case Nil
  show ?case by simp
next
  case (Cons a xs)
  let ?r = "sum_list (map (\<lambda>p. g p div 1000) (filter P xs))"
  from Cons.prems have pa: "P a" and da: "1000 dvd g a"
    and px: "list_all P xs" and dx: "list_all (\<lambda>p. 1000 dvd g p) xs"
    by simp_all
  have a: "1000 * (g a div 1000) = g a"
    using da by (rule dvd_mult_div_cancel)
  have "1000 * (g a div 1000 + ?r) = 1000 * (g a div 1000) + 1000 * ?r"
    by (rule distrib_left)
  also have "\<dots> = g a + sum_list (map g xs)"
    by (simp only: a Cons.IH [OF px dx])
  finally show ?case using pa by simp
qed

lemma sum_satoshi_built_outputs:
  "sum_list (map satoshi (built_outputs C mem tsd ks fr dl self_pay other_pay htlcs sd))
     = sum_list (map (\<lambda>p. amount (mem p) div 1000)
         (filter (\<lambda>p. \<not> trim C (mem p) fr dl sd) htlcs))
       + (if amount_msat_greater_eq_sat self_pay dl then self_pay div 1000 else 0)
       + (if amount_msat_greater_eq_sat other_pay dl then other_pay div 1000 else 0)"
proof -
  have "sum_list (map (\<lambda>p. amount (mem p) div 1000)
           (filter (\<lambda>p. htlc_owner (mem p) = sd \<and> \<not> trim C (mem p) fr dl sd) htlcs))
        + sum_list (map (\<lambda>p. amount (mem p) div 1000)
           (filter (\<lambda>p. htlc_owner (mem p) \<noteq> sd \<and> \<not> trim C (mem p) fr dl sd) htlcs))
        = sum_list (map (\<lambda>p. amount (mem p) div 1000)
           (filter (\<lambda>p. \<not> trim C (mem p) fr dl sd) htlcs))"
    by (rule sum_list_filter_split)
  then show ?thesis
    by (simp add: built_outputs_def untrimmed_offered_def untrimmed_received_def
        offered_htlc_output_def received_htlc_output_def to_local_output_def
        to_remote_output_def amount_msat_to_sat_round_down_def comp_def)
qed

lemma sum_satoshi_of_result:
  assumes ok: "commit_tx C U mem funding_txid funding_txout funding opener tsd ks fr dl
           self_pay other_pay htlcs direct n sd = Inr r"
  shows "sum_list (map satoshi (outputs (wtx (res_tx r))))
     = sum_list (map (\<lambda>p. amount (mem p) div 1000)
         (filter (\<lambda>p. \<not> trim C (mem p) fr dl sd) htlcs))
       + (if amount_msat_greater_eq_sat
               (fst (balances_after_fee C mem opener fr dl self_pay other_pay htlcs sd)) dl
          then fst (balances_after_fee C mem opener fr dl self_pay other_pay htlcs sd) div 1000
          else 0)
       + (if amount_msat_greater_eq_sat
               (snd (balances_after_fee C mem opener fr dl self_pay other_pay htlcs sd)) dl
          then snd (balances_after_fee C mem opener fr dl self_pay other_pay htlcs sd) div 1000
          else 0)"
proof -
  let ?bo = "built_outputs C mem tsd ks fr dl
               (fst (balances_after_fee C mem opener fr dl self_pay other_pay htlcs sd))
               (snd (balances_after_fee C mem opener fr dl self_pay other_pay htlcs sd))
               htlcs sd"
  have "mset (outputs (wtx (res_tx r))) = mset ?bo"
    by (rule outputs_of_result_mset [OF ok])
  then have "mset (map satoshi (outputs (wtx (res_tx r)))) = mset (map satoshi ?bo)"
    by (rule mset_map_cong_mset)
  then have "sum_mset (mset (map satoshi (outputs (wtx (res_tx r)))))
               = sum_mset (mset (map satoshi ?bo))"
    by (rule arg_cong)
  then have "sum_list (map satoshi (outputs (wtx (res_tx r)))) = sum_list (map satoshi ?bo)"
    by (simp only: sum_mset_sum_list)
  then show ?thesis
    by (simp only: sum_satoshi_built_outputs)
qed

lemma fee_accounting_arith:
  fixes S Hu H a b A B fee funding self_pay other_pay :: nat
  assumes S: "S = Hu + A + B"
    and Hu: "1000 * Hu \<le> H"
    and A: "1000 * A \<le> a" and B: "1000 * B \<le> b"
    and ab: "a + b + fee * 1000 = self_pay + other_pay"
    and tot: "self_pay + other_pay + H = funding * 1000"
  shows "S + fee \<le> funding"
proof -
  have "1000 * (S + fee) \<le> H + a + b + fee * 1000"
    using S Hu A B by simp
  also have "\<dots> = funding * 1000"
    using ab tot by simp
  finally show ?thesis by simp
qed

lemma fee_accounting_arith_eq:
  fixes S Hu H a b A B fee funding self_pay other_pay :: nat
  assumes S: "S = Hu + A + B"
    and Hu: "1000 * Hu = H"
    and A: "1000 * A = a" and B: "1000 * B = b"
    and ab: "a + b + fee * 1000 = self_pay + other_pay"
    and tot: "self_pay + other_pay + H = funding * 1000"
  shows "S + fee = funding"
proof -
  have "1000 * (S + fee) = H + a + b + fee * 1000"
    using S Hu A B by simp
  also have "\<dots> = funding * 1000"
    using ab tot by simp
  finally show ?thesis by simp
qed

lemma balances_after_fee_funder:
  fixes C mem opener fr dl self_pay other_pay htlcs sd
  defines "fee \<equiv> commit_tx_base_fee C fr (commit_tx_num_untrimmed C mem htlcs fr dl sd)"
  defines "pays \<equiv> balances_after_fee C mem opener fr dl self_pay other_pay htlcs sd"
  shows "(opener = sd \<longrightarrow> fst pays = amount_msat_sub_sat_floor self_pay fee
            \<and> snd pays = other_pay)
       \<and> (opener \<noteq> sd \<longrightarrow> fst pays = self_pay
            \<and> snd pays = amount_msat_sub_sat_floor other_pay fee)"
  by (simp add: pays_def fee_def balances_after_fee_def try_subtract_fee_def)

lemma balances_after_fee_sum:
  fixes C mem opener fr dl self_pay other_pay htlcs sd
  defines "fee \<equiv> commit_tx_base_fee C fr (commit_tx_num_untrimmed C mem htlcs fr dl sd)"
  defines "pays \<equiv> balances_after_fee C mem opener fr dl self_pay other_pay htlcs sd"
  assumes "amount_msat_greater_eq_sat (if opener = sd then self_pay else other_pay) fee"
  shows "fst pays + snd pays + fee * 1000 = self_pay + other_pay"
  using assms(3)
  by (cases "opener = sd")
     (simp_all add: pays_def fee_def balances_after_fee_def try_subtract_fee_def
        amount_msat_sub_sat_floor_def amount_msat_greater_eq_sat_def)

lemma balances_after_fee_dvd:
  fixes C mem opener fr dl self_pay other_pay htlcs sd
  defines "pays \<equiv> balances_after_fee C mem opener fr dl self_pay other_pay htlcs sd"
  assumes "1000 dvd self_pay" and "1000 dvd other_pay"
  shows "1000 dvd fst pays \<and> 1000 dvd snd pays"
  using assms(2,3)
  by (cases "opener = sd")
     (simp_all add: pays_def balances_after_fee_def try_subtract_fee_def
        amount_msat_sub_sat_floor_def)

text \<open>
  C1, as stated, fails.  In the call below the two balances and the three HTLCs add up to
  the funding amount, and both balances exceed the base fee of 270 satoshi.  The third
  HTLC, of 100 satoshi, is trimmed: no output carries it, so the outputs and the base fee
  add up to 99900 satoshi, not to the 100000 of the funding.
\<close>

theorem fee_not_conserved:
  "amount_msat_greater_eq_sat 60000000 270 \<and> amount_msat_greater_eq_sat 30900000 270
   \<and> 60000000 + 30900000 + sum_list (map (\<lambda>p. amount (ex_mem p)) [16, 32, 48])
        = 100000 * 1000
   \<and> commit_tx_base_fee ex_collab 253
        (commit_tx_num_untrimmed ex_collab ex_mem [16, 32, 48] 253 546 LOCAL) = 270
   \<and> commit_tx ex_collab ex_uninit ex_mem [0xAA] 0 100000 LOCAL 144 ex_keyset 253 546
        60000000 30900000 [16, 32, 48] False 0x123456789ABC LOCAL = Inr ex_result_trimmed
   \<and> sum_list (map satoshi (outputs (wtx (res_tx ex_result_trimmed)))) + 270 = 99900
   \<and> sum_list (map satoshi (outputs (wtx (res_tx ex_result_trimmed)))) + 270 \<noteq> 100000"
proof -
  have "commit_tx ex_collab ex_uninit ex_mem [0xAA] 0 100000 LOCAL 144 ex_keyset 253 546
        60000000 30900000 [16, 32, 48] False 0x123456789ABC LOCAL = Inr ex_result_trimmed"
    by (rule ex_call_trimmed)
  moreover have "commit_tx_base_fee ex_collab 253
        (commit_tx_num_untrimmed ex_collab ex_mem [16, 32, 48] 253 546 LOCAL) = 270"
    by (simp add: ex_defs)
  moreover have "sum_list (map (\<lambda>p. amount (ex_mem p)) [16, 32, 48 :: addr]) = 9100000"
    by (simp add: ex_defs)
  moreover have "sum_list (map satoshi (outputs (wtx (res_tx ex_result_trimmed)))) = 99630"
    by (simp add: ex_result_trimmed_def)
  ultimately show ?thesis
    by (simp add: amount_msat_greater_eq_sat_def)
qed

text \<open>
  C1, amended.  On validated inputs \<open>commit_tx\<close> returns a transaction.  The fee is taken
  from the funder's balance only, floored at zero; the other balance is unchanged.  The
  outputs of a returned transaction add up to the untrimmed HTLC amounts and the balances
  after the fee that meet the dust limit, each truncated to satoshi.  Where balances and
  HTLC amounts add up to the funding amount and the funder's balance covers the fee, the
  outputs plus the base fee are at most the funding amount; they are equal to it when no
  HTLC is trimmed, both balances after the fee meet the dust limit, and every amount is a
  whole number of satoshi.
\<close>

theorem fee_conservation:
  fixes C U mem funding_txid funding_txout funding opener tsd ks fr dl self_pay other_pay
    htlcs direct n sd
  defines "fee \<equiv> commit_tx_base_fee C fr (commit_tx_num_untrimmed C mem htlcs fr dl sd)"
  defines "pays \<equiv> balances_after_fee C mem opener fr dl self_pay other_pay htlcs sd"
  shows
  "(validated_inputs C mem funding opener fr dl self_pay other_pay htlcs sd \<longrightarrow>
      (\<exists>r. commit_tx C U mem funding_txid funding_txout funding opener tsd ks fr dl
            self_pay other_pay htlcs direct n sd = Inr r))
   \<and> (opener = sd \<longrightarrow> fst pays = amount_msat_sub_sat_floor self_pay fee
         \<and> snd pays = other_pay)
   \<and> (opener \<noteq> sd \<longrightarrow> fst pays = self_pay
         \<and> snd pays = amount_msat_sub_sat_floor other_pay fee)
   \<and> (\<forall>r. commit_tx C U mem funding_txid funding_txout funding opener tsd ks fr dl
            self_pay other_pay htlcs direct n sd = Inr r \<longrightarrow>
         sum_list (map satoshi (outputs (wtx (res_tx r))))
           = sum_list (map (\<lambda>p. amount (mem p) div 1000)
               (filter (\<lambda>p. \<not> trim C (mem p) fr dl sd) htlcs))
             + (if amount_msat_greater_eq_sat (fst pays) dl then fst pays div 1000 else 0)
             + (if amount_msat_greater_eq_sat (snd pays) dl then snd pays div 1000 else 0)
       \<and> (self_pay + other_pay + sum_list (map (\<lambda>p. amount (mem p)) htlcs) = funding * 1000
          \<and> amount_msat_greater_eq_sat (if opener = sd then self_pay else other_pay) fee \<longrightarrow>
            sum_list (map satoshi (outputs (wtx (res_tx r)))) + fee \<le> funding
          \<and> (list_all (\<lambda>p. \<not> trim C (mem p) fr dl sd) htlcs
              \<and> amount_msat_greater_eq_sat (fst pays) dl
              \<and> amount_msat_greater_eq_sat (snd pays) dl
              \<and> 1000 dvd self_pay \<and> 1000 dvd other_pay
              \<and> list_all (\<lambda>p. 1000 dvd amount (mem p)) htlcs \<longrightarrow>
              sum_list (map satoshi (outputs (wtx (res_tx r)))) + fee = funding)))"
proof -
  let ?Hu = "sum_list (map (\<lambda>p. amount (mem p) div 1000)
               (filter (\<lambda>p. \<not> trim C (mem p) fr dl sd) htlcs))"
  let ?H = "sum_list (map (\<lambda>p. amount (mem p)) htlcs)"
  let ?A = "if amount_msat_greater_eq_sat (fst pays) dl then fst pays div 1000 else 0"
  let ?B = "if amount_msat_greater_eq_sat (snd pays) dl then snd pays div 1000 else 0"
  have succ: "\<exists>r. commit_tx C U mem funding_txid funding_txout funding opener tsd ks fr dl
            self_pay other_pay htlcs direct n sd = Inr r"
    if "validated_inputs C mem funding opener fr dl self_pay other_pay htlcs sd"
    using that by (rule validated_inputs_succeed)
  have funder: "(opener = sd \<longrightarrow> fst pays = amount_msat_sub_sat_floor self_pay fee
         \<and> snd pays = other_pay)
      \<and> (opener \<noteq> sd \<longrightarrow> fst pays = self_pay
         \<and> snd pays = amount_msat_sub_sat_floor other_pay fee)"
    unfolding pays_def fee_def by (rule balances_after_fee_funder)
  have res: "sum_list (map satoshi (outputs (wtx (res_tx r)))) = ?Hu + ?A + ?B
       \<and> (self_pay + other_pay + ?H = funding * 1000
          \<and> amount_msat_greater_eq_sat (if opener = sd then self_pay else other_pay) fee \<longrightarrow>
            sum_list (map satoshi (outputs (wtx (res_tx r)))) + fee \<le> funding
          \<and> (list_all (\<lambda>p. \<not> trim C (mem p) fr dl sd) htlcs
              \<and> amount_msat_greater_eq_sat (fst pays) dl
              \<and> amount_msat_greater_eq_sat (snd pays) dl
              \<and> 1000 dvd self_pay \<and> 1000 dvd other_pay
              \<and> list_all (\<lambda>p. 1000 dvd amount (mem p)) htlcs \<longrightarrow>
              sum_list (map satoshi (outputs (wtx (res_tx r)))) + fee = funding))"
    if ok: "commit_tx C U mem funding_txid funding_txout funding opener tsd ks fr dl
            self_pay other_pay htlcs direct n sd = Inr r" for r
  proof -
    let ?S = "sum_list (map satoshi (outputs (wtx (res_tx r))))"
    have S: "?S = ?Hu + ?A + ?B"
      unfolding pays_def by (rule sum_satoshi_of_result [OF ok])
    have bound: "?S + fee \<le> funding
          \<and> (list_all (\<lambda>p. \<not> trim C (mem p) fr dl sd) htlcs
              \<and> amount_msat_greater_eq_sat (fst pays) dl
              \<and> amount_msat_greater_eq_sat (snd pays) dl
              \<and> 1000 dvd self_pay \<and> 1000 dvd other_pay
              \<and> list_all (\<lambda>p. 1000 dvd amount (mem p)) htlcs \<longrightarrow>
              ?S + fee = funding)"
      if tot: "self_pay + other_pay + ?H = funding * 1000"
        and cov: "amount_msat_greater_eq_sat (if opener = sd then self_pay else other_pay) fee"
    proof -
      have ab: "fst pays + snd pays + fee * 1000 = self_pay + other_pay"
        unfolding pays_def fee_def using cov [unfolded fee_def]
        by (rule balances_after_fee_sum)
      have Hu: "1000 * ?Hu \<le> ?H"
        by (rule sum_list_div_le)
      have A: "1000 * ?A \<le> fst pays" and B: "1000 * ?B \<le> snd pays"
        by simp_all
      have le: "?S + fee \<le> funding"
        by (rule fee_accounting_arith [OF S Hu A B ab tot])
      have eq: "?S + fee = funding"
        if nt: "list_all (\<lambda>p. \<not> trim C (mem p) fr dl sd) htlcs"
          and ga: "amount_msat_greater_eq_sat (fst pays) dl"
          and gb: "amount_msat_greater_eq_sat (snd pays) dl"
          and ds: "1000 dvd self_pay" and do: "1000 dvd other_pay"
          and dh: "list_all (\<lambda>p. 1000 dvd amount (mem p)) htlcs"
      proof -
        have Hu': "1000 * ?Hu = ?H"
          by (rule sum_list_div_eq [OF nt dh])
        have d: "1000 dvd fst pays \<and> 1000 dvd snd pays"
          unfolding pays_def by (rule balances_after_fee_dvd [OF ds do])
        have A': "1000 * ?A = fst pays" and B': "1000 * ?B = snd pays"
          using ga gb d by simp_all
        show ?thesis
          by (rule fee_accounting_arith_eq [OF S Hu' A' B' ab tot])
      qed
      from le eq show ?thesis by blast
    qed
    from S bound show ?thesis by blast
  qed
  from succ funder res show ?thesis by blast
qed

theorem fee_conservation_witness:
  "validated_inputs ex_collab ex_mem 100000 LOCAL 253 546 60000000 31000000 [16, 32] LOCAL
   \<and> commit_tx ex_collab ex_uninit ex_mem [0xAA] 0 100000 LOCAL 144 ex_keyset 253 546
        60000000 31000000 [16, 32] True 0x123456789ABC LOCAL = Inr ex_result
   \<and> commit_tx_base_fee ex_collab 253
        (commit_tx_num_untrimmed ex_collab ex_mem [16, 32] 253 546 LOCAL) = 270
   \<and> balances_after_fee ex_collab ex_mem LOCAL 253 546 60000000 31000000 [16, 32] LOCAL
        = (59730000, 31000000)
   \<and> 60000000 + 31000000 + sum_list (map (\<lambda>p. amount (ex_mem p)) [16, 32]) = 100000 * 1000
   \<and> amount_msat_greater_eq_sat 60000000 270
   \<and> list_all (\<lambda>p. \<not> trim ex_collab (ex_mem p) 253 546 LOCAL) [16, 32]
   \<and> amount_msat_greater_eq_sat 59730000 546 \<and> amount_msat_greater_eq_sat 31000000 546
   \<and> (1000 :: nat) dvd 60000000 \<and> (1000 :: nat) dvd 31000000
   \<and> list_all (\<lambda>p. 1000 dvd amount (ex_mem p)) [16, 32]
   \<and> sum_list (map satoshi (outputs (wtx (res_tx ex_result)))) + 270 = 100000"
proof -
  have f: "commit_tx_base_fee ex_collab 253
        (commit_tx_num_untrimmed ex_collab ex_mem [16, 32] 253 546 LOCAL) = 270"
    by (simp add: ex_defs)
  have h: "sum_list (map (\<lambda>p. amount (ex_mem p)) [16, 32 :: addr]) = 9000000"
    by (simp add: ex_defs)
  have t: "list_all (\<lambda>p. \<not> trim ex_collab (ex_mem p) 253 546 LOCAL) [16, 32]"
    by (simp add: ex_defs)
  have d: "list_all (\<lambda>p. 1000 dvd amount (ex_mem p)) [16, 32]"
    by (simp add: ex_defs)
  have s: "sum_list (map satoshi (outputs (wtx (res_tx ex_result)))) = 99730"
    by (simp add: ex_result_def)
  from fee_conservation [of ex_collab ex_mem 100000 LOCAL 253 546 60000000 31000000
      "[16, 32]" LOCAL ex_uninit "[0xAA]" 0 144 ex_keyset True "0x123456789ABC"]
    ex_validated ex_call ex_pays f h t d s
  show ?thesis by (simp add: amount_msat_greater_eq_sat_def)
qed


end
